theory Spec2Isabelle
  imports Complex_Main "HOL-Library.Word"
begin

section \<open>The JavaScript values the formatter computes with\<close>

subsection \<open>Strings\<close>

text \<open>
  A JavaScript string is a sequence of UTF-16 code units. The pattern language compares
  single code units (the per-mille sign is the one code unit \<open>0x2030\<close>), so a string is a list of 16-bit words and
  \<open>ustr\<close> turns an ASCII literal into one.
\<close>

type_synonym jschar = "16 word"
type_synonym jsstring = "jschar list"

definition c16 :: "char \<Rightarrow> jschar" where
  "c16 c = of_nat (of_char c)"

definition ustr :: "string \<Rightarrow> jsstring" where
  "ustr s = map c16 s"

definition PERMILLE :: jschar where
  "PERMILLE = 0x2030"

definition INFINITY_GLYPH :: jschar where
  "INFINITY_GLYPH = 0x221E"

subsection \<open>Numbers: IEEE 754 binary64\<close>

text \<open>
  A number is NaN, an infinity with its sign, or a finite value kept as sign bit
  (\<open>True\<close> is negative) and magnitude, so that \<open>-0\<close> is \<open>Finite True 0\<close>.
  Every arithmetic result is rounded to the nearest binary64 value, ties to even.
\<close>

datatype number = NaN | Infinity bool | Finite bool real

fun bitlength :: "nat \<Rightarrow> nat" where
  "bitlength n = (if n = 0 then 0 else Suc (bitlength (n div 2)))"

declare bitlength.simps [simp del]

definition pow2 :: "int \<Rightarrow> real" where
  "pow2 e = (if 0 \<le> e then 2 ^ nat e else 1 / 2 ^ nat (- e))"

definition pow10 :: "int \<Rightarrow> real" where
  "pow10 e = (if 0 \<le> e then 10 ^ nat e else 1 / 10 ^ nat (- e))"

text \<open>\<open>binade x\<close> is \<open>\<lfloor>log\<^sub>2 x\<rfloor>\<close> for \<open>x > 0\<close>.\<close>

definition binade :: "real \<Rightarrow> int" where
  "binade x = (if 1 \<le> x then int (bitlength (nat \<lfloor>x\<rfloor>)) - 1
               else - int (bitlength (nat (\<lceil>1 / x\<rceil> - 1))))"

definition roundTiesToEven :: "real \<Rightarrow> int" where
  "roundTiesToEven x =
     (let f = \<lfloor>x\<rfloor>; d = x - of_int f
      in if d < 1 / 2 then f else if 1 / 2 < d then f + 1 else if even f then f else f + 1)"

text \<open>
  \<open>fl x\<close> rounds a magnitude to 53 significant bits (fewer in the subnormal range,
  whose spacing is \<open>2\<^sup>-\<^sup>1\<^sup>0\<^sup>7\<^sup>4\<close>), with the exponent not yet bounded above.
\<close>

definition fl :: "real \<Rightarrow> real" where
  "fl x = (if x = 0 then 0
           else let e = max (binade x) (- 1022); q = pow2 (e - 52)
                in of_int (roundTiesToEven (x / q)) * q)"

definition round_double :: "bool \<Rightarrow> real \<Rightarrow> number" where
  "round_double s x = (let r = fl x in if 2 ^ 1024 \<le> r then Infinity s else Finite s r)"

text \<open>The number a decimal literal of the source denotes.\<close>

definition double_of :: "real \<Rightarrow> number" where
  "double_of x = round_double (x < 0) \<bar>x\<bar>"

definition sval :: "bool \<Rightarrow> real \<Rightarrow> real" where
  "sval s m = (if s then - m else m)"

fun isNaN :: "number \<Rightarrow> bool" where
  "isNaN NaN = True"
| "isNaN _ = False"

fun isFinite :: "number \<Rightarrow> bool" where
  "isFinite (Finite _ _) = True"
| "isFinite _ = False"

fun js_neg :: "number \<Rightarrow> number" where
  "js_neg NaN = NaN"
| "js_neg (Infinity s) = Infinity (\<not> s)"
| "js_neg (Finite s m) = Finite (\<not> s) m"

fun js_mul :: "number \<Rightarrow> number \<Rightarrow> number" where
  "js_mul NaN _ = NaN"
| "js_mul _ NaN = NaN"
| "js_mul (Infinity s) (Infinity t) = Infinity (s \<noteq> t)"
| "js_mul (Infinity s) (Finite t n) = (if n = 0 then NaN else Infinity (s \<noteq> t))"
| "js_mul (Finite s m) (Infinity t) = (if m = 0 then NaN else Infinity (s \<noteq> t))"
| "js_mul (Finite s m) (Finite t n) = round_double (s \<noteq> t) (m * n)"

fun js_div :: "number \<Rightarrow> number \<Rightarrow> number" where
  "js_div NaN _ = NaN"
| "js_div _ NaN = NaN"
| "js_div (Infinity s) (Infinity t) = NaN"
| "js_div (Infinity s) (Finite t n) = Infinity (s \<noteq> t)"
| "js_div (Finite s m) (Infinity t) = Finite (s \<noteq> t) 0"
| "js_div (Finite s m) (Finite t n) =
     (if n = 0 then (if m = 0 then NaN else Infinity (s \<noteq> t))
      else round_double (s \<noteq> t) (m / n))"

fun js_add :: "number \<Rightarrow> number \<Rightarrow> number" where
  "js_add NaN _ = NaN"
| "js_add _ NaN = NaN"
| "js_add (Infinity s) (Infinity t) = (if s = t then Infinity s else NaN)"
| "js_add (Infinity s) (Finite t n) = Infinity s"
| "js_add (Finite s m) (Infinity t) = Infinity t"
| "js_add (Finite s m) (Finite t n) =
     (let r = sval s m + sval t n
      in if r = 0 then Finite (s \<and> t) 0 else round_double (r < 0) \<bar>r\<bar>)"

definition js_sub :: "number \<Rightarrow> number \<Rightarrow> number" where
  "js_sub a b = js_add a (js_neg b)"

text \<open>The remainder \<open>a % b\<close> truncates the quotient and takes the sign of \<open>a\<close>; it is exact.\<close>

fun js_rem :: "number \<Rightarrow> number \<Rightarrow> number" where
  "js_rem NaN _ = NaN"
| "js_rem _ NaN = NaN"
| "js_rem (Infinity s) _ = NaN"
| "js_rem (Finite s m) (Infinity t) = Finite s m"
| "js_rem (Finite s m) (Finite t n) =
     (if n = 0 then NaN else Finite s (m - n * of_int \<lfloor>m / n\<rfloor>))"

fun js_lt :: "number \<Rightarrow> number \<Rightarrow> bool" where
  "js_lt NaN _ = False"
| "js_lt _ NaN = False"
| "js_lt (Infinity s) (Infinity t) = (s \<and> \<not> t)"
| "js_lt (Infinity s) (Finite t n) = s"
| "js_lt (Finite s m) (Infinity t) = (\<not> t)"
| "js_lt (Finite s m) (Finite t n) = (sval s m < sval t n)"

definition js_gt :: "number \<Rightarrow> number \<Rightarrow> bool" where
  "js_gt a b = js_lt b a"

text \<open>Strict equality \<open>===\<close> on numbers: NaN equals nothing, \<open>-0\<close> equals \<open>+0\<close>.\<close>

fun js_eq :: "number \<Rightarrow> number \<Rightarrow> bool" where
  "js_eq NaN _ = False"
| "js_eq _ NaN = False"
| "js_eq (Infinity s) (Infinity t) = (s = t)"
| "js_eq (Infinity s) (Finite t n) = False"
| "js_eq (Finite s m) (Infinity t) = False"
| "js_eq (Finite s m) (Finite t n) = (sval s m = sval t n)"

definition js_ge :: "number \<Rightarrow> number \<Rightarrow> bool" where
  "js_ge a b = (js_lt b a \<or> js_eq a b)"

definition ZERO :: number where
  "ZERO = Finite False 0"

definition ONE :: number where
  "ONE = Finite False 1"

definition TWO :: number where
  "TWO = Finite False 2"

definition HALF :: number where
  "HALF = Finite False (1 / 2)"

text \<open>The literal \<open>0.0000000001\<close> of the rounding code.\<close>

definition EPSILON :: number where
  "EPSILON = double_of (1 / 10000000000)"

subsection \<open>The Math functions the formatter calls\<close>

fun Math_abs :: "number \<Rightarrow> number" where
  "Math_abs NaN = NaN"
| "Math_abs (Infinity s) = Infinity False"
| "Math_abs (Finite s m) = Finite False m"

fun Math_floor :: "number \<Rightarrow> number" where
  "Math_floor NaN = NaN"
| "Math_floor (Infinity s) = Infinity s"
| "Math_floor (Finite s m) = Finite s (if s then of_int \<lceil>m\<rceil> else of_int \<lfloor>m\<rfloor>)"

fun Math_ceil :: "number \<Rightarrow> number" where
  "Math_ceil NaN = NaN"
| "Math_ceil (Infinity s) = Infinity s"
| "Math_ceil (Finite s m) = Finite s (if s then of_int \<lfloor>m\<rfloor> else of_int \<lceil>m\<rceil>)"

text \<open>\<open>Math.round\<close> rounds to the nearest integer, a tie going towards \<open>+\<infinity>\<close>.\<close>

fun Math_round :: "number \<Rightarrow> number" where
  "Math_round NaN = NaN"
| "Math_round (Infinity s) = Infinity s"
| "Math_round (Finite s m) =
     Finite s (if s then of_int \<lceil>m - 1 / 2\<rceil> else of_int \<lfloor>m + 1 / 2\<rfloor>)"

text \<open>
  \<open>Math.pow(10, e)\<close>. ECMAScript fixes the result at NaN, at the infinities and at the
  exponents \<open>+0\<close> and \<open>-0\<close>, and leaves every other result to the implementation
  (``an implementation-approximated value''). The powers \<open>10\<^sup>0\<close> to \<open>10\<^sup>2\<^sup>2\<close> are doubles, and
  an integer exponent from 0 to 22 returns them exactly. For any other finite exponent (a
  negative one, a fractional one, one above 22) the result is whatever the platform
  computes, which need not be the correctly rounded power: it is the value
  \<open>pow10_approx e\<close> of a function about which nothing is known.
\<close>

definition pow10_approx :: "real \<Rightarrow> number" where
  "pow10_approx = (SOME f. True)"

fun Math_pow10 :: "number \<Rightarrow> number" where
  "Math_pow10 NaN = NaN"
| "Math_pow10 (Infinity s) = (if s then Finite False 0 else Infinity False)"
| "Math_pow10 (Finite s m) =
     (if m = 0 then Finite False 1
      else if \<not> s \<and> of_int \<lfloor>m\<rfloor> = m \<and> m \<le> 22 then Finite False (10 ^ nat \<lfloor>m\<rfloor>)
      else pow10_approx (sval s m))"

text \<open>
  \<open>Math.log10(x)\<close>, taken as the correctly rounded logarithm. The statements below
  apply it to \<open>15\<close> only, where any result between 1 and 2 gives the exponent \<open>1\<close>.
\<close>

fun Math_log10 :: "number \<Rightarrow> number" where
  "Math_log10 NaN = NaN"
| "Math_log10 (Infinity s) = (if s then NaN else Infinity False)"
| "Math_log10 (Finite s m) =
     (if m = 0 then Infinity True
      else if s then NaN
      else let r = log 10 m in if r = 0 then Finite False 0 else round_double (r < 0) \<bar>r\<bar>)"

text \<open>A digit count of the pattern rules, used as a number.\<close>

definition of_count :: "nat \<Rightarrow> number" where
  "of_count n = round_double False (of_nat n)"

subsection \<open>Numbers to strings and back\<close>

definition digit_char :: "nat \<Rightarrow> jschar" where
  "digit_char d = of_nat (48 + d)"

definition is_digit :: "jschar \<Rightarrow> bool" where
  "is_digit c = (0x30 \<le> c \<and> c \<le> 0x39)"

definition digit_val :: "jschar \<Rightarrow> nat" where
  "digit_val c = unat c - 48"

fun nat_digits_pos :: "nat \<Rightarrow> jsstring" where
  "nat_digits_pos n = (if n = 0 then [] else nat_digits_pos (n div 10) @ [digit_char (n mod 10)])"

declare nat_digits_pos.simps [simp del]

definition nat_digits :: "nat \<Rightarrow> jsstring" where
  "nat_digits n = (if n = 0 then [digit_char 0] else nat_digits_pos n)"

definition digits_val :: "jsstring \<Rightarrow> nat" where
  "digits_val ds = foldl (\<lambda>a c. 10 * a + digit_val c) 0 ds"

text \<open>\<open>decade x\<close> is \<open>\<lfloor>log\<^sub>1\<^sub>0 x\<rfloor>\<close> for \<open>x > 0\<close>.\<close>

definition decade :: "real \<Rightarrow> int" where
  "decade x = (if 1 \<le> x then int (length (nat_digits_pos (nat \<lfloor>x\<rfloor>))) - 1
               else - int (length (nat_digits_pos (nat (\<lceil>1 / x\<rceil> - 1)))))"

text \<open>
  \<open>Number::toString\<close> prints the shortest digit string \<open>s\<close> with \<open>k\<close> digits and the
  exponent \<open>n\<close> such that \<open>s \<times> 10\<^sup>n\<^sup>-\<^sup>k\<close> rounds to the number, the closest to it when
  two strings of that length do. \<open>shortest_digits x n k fuel\<close> tries \<open>k, k + 1, ...\<close>.
\<close>

fun shortest_digits :: "real \<Rightarrow> int \<Rightarrow> nat \<Rightarrow> nat \<Rightarrow> nat \<times> int" where
  "shortest_digits x n k fuel =
     (let u = pow10 (n - int k);
          t = x / u;
          lo = nat \<lfloor>t\<rfloor>;
          hi = lo + 1;
          oklo = (round_double False (of_nat lo * u) = Finite False x);
          okhi = (round_double False (of_nat hi * u) = Finite False x);
          dlo = t - of_nat lo;
          dhi = of_nat hi - t;
          pick = (if oklo \<and> okhi
                  then (if dlo < dhi then lo else if dhi < dlo then hi
                        else if even lo then lo else hi)
                  else if oklo then lo else hi)
      in if oklo \<or> okhi
         then (if pick = 10 ^ k then (pick div 10, n + 1) else (pick, n))
         else if fuel = 0 then (lo, n)
         else shortest_digits x n (Suc k) (fuel - 1))"

declare shortest_digits.simps [simp del]

definition Number_toString :: "number \<Rightarrow> jsstring" where
  "Number_toString x =
     (case x of
        NaN \<Rightarrow> ustr ''NaN''
      | Infinity s \<Rightarrow> (if s then ustr ''-Infinity'' else ustr ''Infinity'')
      | Finite s m \<Rightarrow>
          if m = 0 then ustr ''0''
          else
            let (sd, n) = shortest_digits m (decade m + 1) 1 16;
                ds = nat_digits sd;
                k = int (length ds);
                body =
                  (if k \<le> n \<and> n \<le> 21 then ds @ replicate (nat (n - k)) (c16 CHR ''0'')
                   else if 0 < n \<and> n \<le> 21 then take (nat n) ds @ ustr ''.'' @ drop (nat n) ds
                   else if - 6 < n \<and> n \<le> 0
                     then ustr ''0.'' @ replicate (nat (- n)) (c16 CHR ''0'') @ ds
                   else
                     (if k = 1 then ds else take 1 ds @ ustr ''.'' @ drop 1 ds)
                     @ ustr ''e'' @ (if n - 1 < 0 then ustr ''-'' else ustr ''+'')
                     @ nat_digits (nat \<bar>n - 1\<bar>))
            in (if s then ustr ''-'' else []) @ body)"

text \<open>The errors a call can raise.\<close>

datatype error =
    CannotFormatNaN
  | RoundingNecessary
  | UnknownRoundingMode
  | RangeError

text \<open>
  \<open>Number.prototype.toFixed\<close>: the decimal expansion rounded to \<open>f\<close> fraction digits,
  a tie taking the larger candidate; a \<open>RangeError\<close> beyond 100 digits; the
  \<open>toString\<close> form from \<open>10\<^sup>2\<^sup>1\<close> on.
\<close>

definition Number_toFixed :: "number \<Rightarrow> nat \<Rightarrow> error + jsstring" where
  "Number_toFixed x f =
     (if 100 < f then Inl RangeError
      else case x of
        NaN \<Rightarrow> Inr (Number_toString x)
      | Infinity s \<Rightarrow> Inr (Number_toString x)
      | Finite s m \<Rightarrow>
          if 10 ^ 21 \<le> m then Inr (Number_toString x)
          else
            let n = nat \<lfloor>m * 10 ^ f + 1 / 2\<rfloor>;
                ds = nat_digits n;
                zs = (if f \<noteq> 0 \<and> length ds \<le> f
                      then replicate (f + 1 - length ds) (c16 CHR ''0'') @ ds else ds);
                body = (if f \<noteq> 0
                        then take (length zs - f) zs @ ustr ''.'' @ drop (length zs - f) zs
                        else zs)
            in Inr ((if s \<and> m \<noteq> 0 then ustr ''-'' else []) @ body))"

definition is_whitespace :: "jschar \<Rightarrow> bool" where
  "is_whitespace c =
     (c \<in> {0x9, 0xA, 0xB, 0xC, 0xD, 0x20, 0xA0, 0x1680, 0x2028, 0x2029, 0x202F, 0x205F,
            0x3000, 0xFEFF}
      \<or> (0x2000 \<le> c \<and> c \<le> 0x200A))"

definition parse_exponent :: "jsstring \<Rightarrow> int" where
  "parse_exponent r =
     (case r of
        [] \<Rightarrow> 0
      | c # r' \<Rightarrow>
          if c = c16 CHR ''e'' \<or> c = c16 CHR ''E''
          then
            let (neg, d) =
                  (case r' of
                     [] \<Rightarrow> (False, [])
                   | c' # r'' \<Rightarrow>
                       if c' = c16 CHR ''-'' then (True, r'')
                       else if c' = c16 CHR ''+'' then (False, r'')
                       else (False, r'));
                ds = takeWhile is_digit d
            in if ds = [] then 0
               else if neg then - int (digits_val ds) else int (digits_val ds)
          else 0)"

text \<open>
  \<open>parseFloat\<close>: skip leading white space, read the longest prefix that is a decimal
  literal, and round its value to a number; NaN when there is no such prefix.
\<close>

definition parseFloat :: "jsstring \<Rightarrow> number" where
  "parseFloat str =
     (let t = dropWhile is_whitespace str;
          (neg, u) =
            (case t of
               [] \<Rightarrow> (False, [])
             | c # r \<Rightarrow>
                 if c = c16 CHR ''-'' then (True, r)
                 else if c = c16 CHR ''+'' then (False, r)
                 else (False, t))
      in if take 8 u = ustr ''Infinity'' then Infinity neg
         else
           let ip = takeWhile is_digit u;
               r1 = dropWhile is_digit u;
               (fp, r2) =
                 (case r1 of
                    [] \<Rightarrow> ([], [])
                  | c # r \<Rightarrow>
                      if c = c16 CHR ''.''
                      then (takeWhile is_digit r, dropWhile is_digit r)
                      else ([], r1))
           in if ip = [] \<and> fp = [] then NaN
              else round_double neg
                     (of_nat (digits_val (ip @ fp)) * pow10 (parse_exponent r2 - int (length fp))))"

text \<open>The string methods of the formatter.\<close>

definition padStart :: "jsstring \<Rightarrow> nat \<Rightarrow> jschar \<Rightarrow> jsstring" where
  "padStart str n c = replicate (n - length str) c @ str"

definition repeat :: "jschar \<Rightarrow> nat \<Rightarrow> jsstring" where
  "repeat c n = replicate n c"

definition endsWith :: "jsstring \<Rightarrow> jschar \<Rightarrow> bool" where
  "endsWith str c = (str \<noteq> [] \<and> last str = c)"

text \<open>\<open>indexOf\<close> and \<open>lastIndexOf\<close> of one character: the index, or \<open>-1\<close>.\<close>

fun indexOf :: "jsstring \<Rightarrow> jschar \<Rightarrow> int" where
  "indexOf [] c = - 1"
| "indexOf (x # xs) c =
     (if x = c then 0 else let r = indexOf xs c in if r < 0 then - 1 else r + 1)"

definition lastIndexOf :: "jsstring \<Rightarrow> jschar \<Rightarrow> int" where
  "lastIndexOf str c =
     (let r = indexOf (rev str) c in if r < 0 then - 1 else int (length str) - 1 - r)"

text \<open>\<open>substring\<close> with both indices inside the string and in order, as every call has them.\<close>

definition substring :: "jsstring \<Rightarrow> nat \<Rightarrow> nat \<Rightarrow> jsstring" where
  "substring str a b = take (b - a) (drop a str)"

definition substring_from :: "jsstring \<Rightarrow> nat \<Rightarrow> jsstring" where
  "substring_from str a = drop a str"

section \<open>RoundingMode.ts\<close>

datatype RoundingMode =
    UP | DOWN | CEILING | FLOOR | HALF_UP | HALF_DOWN | HALF_EVEN | UNNECESSARY

section \<open>DecimalFormat.ts: the pattern compiler\<close>

text \<open>
  The digit counts and the multiplier are JavaScript numbers in the source; the compiler
  only ever produces natural numbers for them, and they are kept as such.
\<close>

record ParsedPattern =
  positivePrefix :: jsstring
  positiveSuffix :: jsstring
  negativePrefix :: jsstring
  negativeSuffix :: jsstring
  minIntegerDigits :: nat
  maxIntegerDigits :: nat
  minFractionDigits :: nat
  maxFractionDigits :: nat
  groupingSize :: nat
  groupingUsed :: bool
  decimalSeparatorAlwaysShown :: bool
  useExponentialNotation :: bool
  minExponentDigits :: nat
  multiplier :: nat

text \<open>The object \<open>parseSubpattern\<close> returns.\<close>

record Subpattern =
  sub_prefix :: jsstring
  sub_suffix :: jsstring
  sub_minIntegerDigits :: nat
  sub_maxIntegerDigits :: nat
  sub_minFractionDigits :: nat
  sub_maxFractionDigits :: nat
  sub_groupingSize :: nat
  sub_groupingUsed :: bool
  sub_decimalSeparatorAlwaysShown :: bool
  sub_useExponentialNotation :: bool
  sub_minExponentDigits :: nat
  sub_multiplier :: nat

definition MAX_SAFE_INTEGER :: nat where
  "MAX_SAFE_INTEGER = 9007199254740991"

text \<open>
  \<open>findUnquotedSemicolon\<close>: the loop over \<open>i\<close> with its flag \<open>inQuote\<close>; the index of
  the first \<open>;\<close> outside quotes, or \<open>-1\<close>.
\<close>

fun findUnquotedSemicolon_loop :: "jsstring \<Rightarrow> bool \<Rightarrow> nat \<Rightarrow> int" where
  "findUnquotedSemicolon_loop [] inQuote i = - 1"
| "findUnquotedSemicolon_loop (c # cs) inQuote i =
     (if c = c16 CHR 0x27 then findUnquotedSemicolon_loop cs (\<not> inQuote) (i + 1)
      else if c = c16 CHR '';'' \<and> \<not> inQuote then int i
      else findUnquotedSemicolon_loop cs inQuote (i + 1))"

definition findUnquotedSemicolon :: "jsstring \<Rightarrow> int" where
  "findUnquotedSemicolon pattern = findUnquotedSemicolon_loop pattern False 0"

text \<open>
  The scanner of \<open>parseSubpattern\<close>: the variables its \<open>while\<close> loop updates, and the
  loop body for one character. Every path through the body advances \<open>i\<close> by one, so the
  loop is a left fold over the characters.
\<close>

datatype scan_state = StPrefix | StNumber | StSuffix | StExponent

record scanner =
  sc_prefix :: jsstring
  sc_suffix :: jsstring
  sc_numberPart :: jsstring
  sc_useExponentialNotation :: bool
  sc_minExponentDigits :: nat
  sc_multiplier :: nat
  sc_state :: scan_state
  sc_inQuote :: bool

definition is_number_char :: "jschar \<Rightarrow> bool" where
  "is_number_char ch =
     (ch = c16 CHR ''0'' \<or> ch = c16 CHR ''#'' \<or> ch = c16 CHR '','' \<or> ch = c16 CHR ''.'')"

definition scan_char :: "scanner \<Rightarrow> jschar \<Rightarrow> scanner" where
  "scan_char sc ch =
     (if ch = c16 CHR 0x27 then sc\<lparr>sc_inQuote := \<not> sc_inQuote sc\<rparr>
      else if sc_inQuote sc then
        (if sc_state sc = StPrefix then sc\<lparr>sc_prefix := sc_prefix sc @ [ch]\<rparr>
         else if sc_state sc = StSuffix \<or> sc_state sc = StExponent
           then sc\<lparr>sc_suffix := sc_suffix sc @ [ch]\<rparr>
         else sc)
      else
        let sc = (if is_number_char ch \<and> sc_state sc = StPrefix
                  then sc\<lparr>sc_state := StNumber\<rparr> else sc)
        in case sc_state sc of
             StPrefix \<Rightarrow>
               if ch = c16 CHR ''%''
                 then sc\<lparr>sc_multiplier := 100, sc_prefix := sc_prefix sc @ [ch]\<rparr>
               else if ch = PERMILLE
                 then sc\<lparr>sc_multiplier := 1000, sc_prefix := sc_prefix sc @ [ch]\<rparr>
               else sc\<lparr>sc_prefix := sc_prefix sc @ [ch]\<rparr>
           | StNumber \<Rightarrow>
               if is_number_char ch then sc\<lparr>sc_numberPart := sc_numberPart sc @ [ch]\<rparr>
               else if ch = c16 CHR ''E'' \<or> ch = c16 CHR ''e''
                 then sc\<lparr>sc_useExponentialNotation := True, sc_state := StExponent\<rparr>
               else if ch = c16 CHR ''%''
                 then sc\<lparr>sc_state := StSuffix, sc_multiplier := 100,
                         sc_suffix := sc_suffix sc @ [ch]\<rparr>
               else if ch = PERMILLE
                 then sc\<lparr>sc_state := StSuffix, sc_multiplier := 1000,
                         sc_suffix := sc_suffix sc @ [ch]\<rparr>
               else sc\<lparr>sc_state := StSuffix, sc_suffix := sc_suffix sc @ [ch]\<rparr>
           | StExponent \<Rightarrow>
               if ch = c16 CHR ''0''
                 then sc\<lparr>sc_minExponentDigits := sc_minExponentDigits sc + 1\<rparr>
               else sc\<lparr>sc_state := StSuffix, sc_suffix := sc_suffix sc @ [ch]\<rparr>
           | StSuffix \<Rightarrow> sc\<lparr>sc_suffix := sc_suffix sc @ [ch]\<rparr>)"

definition scanner_init :: scanner where
  "scanner_init =
     \<lparr>sc_prefix = [], sc_suffix = [], sc_numberPart = [],
      sc_useExponentialNotation = False, sc_minExponentDigits = 0, sc_multiplier = 1,
      sc_state = StPrefix, sc_inQuote = False\<rparr>"

definition count_char :: "jschar \<Rightarrow> jsstring \<Rightarrow> nat" where
  "count_char c str = length (filter (\<lambda>x. x = c) str)"

text \<open>
  \<open>parseSubpattern\<close>: the scan, then the digit counts read off \<open>numberPart\<close>. When
  \<open>numberPart\<close> is empty the counts keep their initial values: \<open>minIntegerDigits = 1\<close>,
  \<open>maxIntegerDigits = Number.MAX_SAFE_INTEGER\<close> and no fraction digits.
\<close>

definition parseSubpattern :: "jsstring \<Rightarrow> Subpattern" where
  "parseSubpattern subpattern =
     (let sc = foldl scan_char scanner_init subpattern;
          numberPart = sc_numberPart sc;
          dotIndex = indexOf numberPart (c16 CHR ''.'');
          integerPart = (if 0 \<le> dotIndex then substring numberPart 0 (nat dotIndex)
                         else numberPart);
          fractionPart = (if 0 \<le> dotIndex then substring_from numberPart (nat dotIndex + 1)
                          else []);
          lastComma = lastIndexOf integerPart (c16 CHR '','');
          intDigits = filter (\<lambda>c. c \<noteq> c16 CHR '','') integerPart;
          zeroCount = count_char (c16 CHR ''0'') intDigits;
          hashCount = count_char (c16 CHR ''#'') intDigits
      in if numberPart \<noteq> [] then
           \<lparr>sub_prefix = sc_prefix sc, sub_suffix = sc_suffix sc,
            sub_minIntegerDigits = zeroCount,
            sub_maxIntegerDigits = zeroCount + hashCount,
            sub_minFractionDigits = count_char (c16 CHR ''0'') fractionPart,
            sub_maxFractionDigits =
              count_char (c16 CHR ''0'') fractionPart + count_char (c16 CHR ''#'') fractionPart,
            sub_groupingSize =
              (if 0 \<le> lastComma then nat (int (length integerPart) - lastComma - 1) else 0),
            sub_groupingUsed = (0 \<le> lastComma),
            sub_decimalSeparatorAlwaysShown = (0 \<le> dotIndex \<and> length fractionPart = 0),
            sub_useExponentialNotation = sc_useExponentialNotation sc,
            sub_minExponentDigits = sc_minExponentDigits sc,
            sub_multiplier = sc_multiplier sc\<rparr>
         else
           \<lparr>sub_prefix = sc_prefix sc, sub_suffix = sc_suffix sc,
            sub_minIntegerDigits = 1,
            sub_maxIntegerDigits = MAX_SAFE_INTEGER,
            sub_minFractionDigits = 0,
            sub_maxFractionDigits = 0,
            sub_groupingSize = 0,
            sub_groupingUsed = False,
            sub_decimalSeparatorAlwaysShown = False,
            sub_useExponentialNotation = sc_useExponentialNotation sc,
            sub_minExponentDigits = sc_minExponentDigits sc,
            sub_multiplier = sc_multiplier sc\<rparr>)"

text \<open>
  \<open>parsePattern\<close>. The test \<open>if (negativePattern)\<close> is on a string or \<open>null\<close>: it
  fails for \<open>null\<close> and for the empty string, and the negative prefix is then derived.
\<close>

definition parsePattern :: "jsstring \<Rightarrow> ParsedPattern" where
  "parsePattern pattern =
     (let semicolonIndex = findUnquotedSemicolon pattern;
          positivePattern = (if 0 \<le> semicolonIndex
                             then substring pattern 0 (nat semicolonIndex) else pattern);
          negativePattern = (if 0 \<le> semicolonIndex
                             then Some (substring_from pattern (nat semicolonIndex + 1))
                             else None);
          positive = parseSubpattern positivePattern;
          negative =
            (case negativePattern of
               None \<Rightarrow> positive\<lparr>sub_prefix := ustr ''-'' @ sub_prefix positive\<rparr>
             | Some np \<Rightarrow>
                 if np \<noteq> [] then parseSubpattern np
                 else positive\<lparr>sub_prefix := ustr ''-'' @ sub_prefix positive\<rparr>)
      in \<lparr>positivePrefix = sub_prefix positive,
          positiveSuffix = sub_suffix positive,
          negativePrefix = sub_prefix negative,
          negativeSuffix = sub_suffix negative,
          minIntegerDigits = sub_minIntegerDigits positive,
          maxIntegerDigits = sub_maxIntegerDigits positive,
          minFractionDigits = sub_minFractionDigits positive,
          maxFractionDigits = sub_maxFractionDigits positive,
          groupingSize = sub_groupingSize positive,
          groupingUsed = sub_groupingUsed positive,
          decimalSeparatorAlwaysShown = sub_decimalSeparatorAlwaysShown positive,
          useExponentialNotation = sub_useExponentialNotation positive,
          minExponentDigits = sub_minExponentDigits positive,
          multiplier = sub_multiplier positive\<rparr>)"

section \<open>DecimalFormat.ts: the formatter instance\<close>

record DecimalFormat =
  pattern :: jsstring
  parsedPattern :: ParsedPattern
  roundingMode :: RoundingMode

definition DEFAULT_PATTERN :: jsstring where
  "DEFAULT_PATTERN = ustr ''#,##0.###''"

text \<open>
  The constructor. Its argument is optional, and the test \<open>if (pattern)\<close> fails for
  \<open>undefined\<close> and for the empty string: both leave the field initialiser
  \<open>'#,##0.###'\<close> in place.
\<close>

definition new_DecimalFormat :: "jsstring option \<Rightarrow> DecimalFormat" where
  "new_DecimalFormat arg =
     (let p = (case arg of
                 None \<Rightarrow> DEFAULT_PATTERN
               | Some s \<Rightarrow> if s \<noteq> [] then s else DEFAULT_PATTERN)
      in \<lparr>pattern = p, parsedPattern = parsePattern p, roundingMode = HALF_EVEN\<rparr>)"

definition applyPattern :: "DecimalFormat \<Rightarrow> jsstring \<Rightarrow> DecimalFormat" where
  "applyPattern this p = this\<lparr>pattern := p, parsedPattern := parsePattern p\<rparr>"

definition toPattern :: "DecimalFormat \<Rightarrow> jsstring" where
  "toPattern this = pattern this"

definition setRoundingMode :: "DecimalFormat \<Rightarrow> RoundingMode \<Rightarrow> DecimalFormat" where
  "setRoundingMode this mode = this\<lparr>roundingMode := mode\<rparr>"

definition getRoundingMode :: "DecimalFormat \<Rightarrow> RoundingMode" where
  "getRoundingMode this = roundingMode this"

definition getMinimumIntegerDigits :: "DecimalFormat \<Rightarrow> nat" where
  "getMinimumIntegerDigits this = minIntegerDigits (parsedPattern this)"

definition getMaximumIntegerDigits :: "DecimalFormat \<Rightarrow> nat" where
  "getMaximumIntegerDigits this = maxIntegerDigits (parsedPattern this)"

definition getMinimumFractionDigits :: "DecimalFormat \<Rightarrow> nat" where
  "getMinimumFractionDigits this = minFractionDigits (parsedPattern this)"

definition getMaximumFractionDigits :: "DecimalFormat \<Rightarrow> nat" where
  "getMaximumFractionDigits this = maxFractionDigits (parsedPattern this)"

definition getPositivePrefix :: "DecimalFormat \<Rightarrow> jsstring" where
  "getPositivePrefix this = positivePrefix (parsedPattern this)"

definition getPositiveSuffix :: "DecimalFormat \<Rightarrow> jsstring" where
  "getPositiveSuffix this = positiveSuffix (parsedPattern this)"

section \<open>DecimalFormat.ts: rounding\<close>

text \<open>
  \<open>roundInteger\<close>, the rounding at scale 0. The \<open>default\<close> branch of the switch is
  not reachable from a value of the enumeration.
\<close>

definition roundInteger :: "DecimalFormat \<Rightarrow> number \<Rightarrow> error + number" where
  "roundInteger this val =
     (let sign = (if js_lt val ZERO then js_neg ONE else ONE);
          absValue = Math_abs val
      in case roundingMode this of
           UP \<Rightarrow> Inr (js_mul sign (Math_ceil absValue))
         | DOWN \<Rightarrow> Inr (js_mul sign (Math_floor absValue))
         | CEILING \<Rightarrow> Inr (Math_ceil val)
         | FLOOR \<Rightarrow> Inr (Math_floor val)
         | HALF_UP \<Rightarrow> Inr (js_mul sign (Math_round absValue))
         | HALF_DOWN \<Rightarrow>
             Inr (js_mul sign
                   (if js_eq (Math_floor (js_add absValue HALF))
                             (Math_ceil (js_sub absValue HALF))
                    then Math_floor absValue else Math_round absValue))
         | HALF_EVEN \<Rightarrow>
             (let floored = Math_floor absValue;
                  fraction = js_sub absValue floored;
                  result =
                    (if js_gt fraction HALF then js_add floored ONE
                     else if js_lt fraction HALF then floored
                     else if js_eq (js_rem floored TWO) ZERO then floored
                     else js_add floored ONE)
              in Inr (js_mul sign result))
         | UNNECESSARY \<Rightarrow>
             if \<not> js_eq val (Math_floor val) then Inl RoundingNecessary else Inr val)"

text \<open>
  \<open>round\<close>, named \<open>round_value\<close> here. The switch computes \<open>roundedScaled\<close> or throws;
  the value returned is \<open>sign * parseFloat((roundedScaled / factor).toFixed(scale))\<close>.
\<close>

definition round_value :: "DecimalFormat \<Rightarrow> number \<Rightarrow> nat \<Rightarrow> error + number" where
  "round_value this val scale =
     (if scale = 0 then roundInteger this val
      else
        let factor = Math_pow10 (of_count scale);
            sign = (if js_ge val ZERO then ONE else js_neg ONE);
            absValue = Math_abs val;
            scaled = js_mul absValue factor;
            roundedScaled =
              (case roundingMode this of
                 UP \<Rightarrow> Inr (Math_ceil scaled)
               | DOWN \<Rightarrow> Inr (Math_floor scaled)
               | CEILING \<Rightarrow>
                   Inr (if js_gt sign ZERO then Math_ceil scaled else Math_floor scaled)
               | FLOOR \<Rightarrow>
                   Inr (if js_gt sign ZERO then Math_floor scaled else Math_ceil scaled)
               | HALF_UP \<Rightarrow> Inr (Math_round (js_add scaled EPSILON))
               | HALF_DOWN \<Rightarrow>
                   (let floored = Math_floor scaled;
                        fraction = js_sub scaled floored
                    in Inr (if js_gt fraction HALF then js_add floored ONE else floored))
               | HALF_EVEN \<Rightarrow>
                   (let floored = Math_floor scaled;
                        fraction = js_sub scaled floored
                    in Inr (if js_gt fraction (js_add HALF EPSILON) then js_add floored ONE
                            else if js_lt fraction (js_sub HALF EPSILON) then floored
                            else if js_eq (js_rem floored TWO) ZERO then floored
                            else js_add floored ONE))
               | UNNECESSARY \<Rightarrow>
                   if js_gt (Math_abs (js_sub scaled (Math_round scaled))) EPSILON
                   then Inl RoundingNecessary
                   else Inr (Math_round scaled))
        in case roundedScaled of
             Inl e \<Rightarrow> Inl e
           | Inr rs \<Rightarrow>
               (case Number_toFixed (js_div rs factor) scale of
                  Inl e \<Rightarrow> Inl e
                | Inr str \<Rightarrow> Inr (js_mul sign (parseFloat str))))"

section \<open>DecimalFormat.ts: the renderer\<close>

text \<open>
  \<open>applyGrouping\<close>: the loop over the reversed characters pushes a comma before every
  character whose index is a positive multiple of \<open>groupSize\<close>.
\<close>

fun applyGrouping_loop :: "jsstring \<Rightarrow> nat \<Rightarrow> nat \<Rightarrow> jsstring \<Rightarrow> jsstring" where
  "applyGrouping_loop [] i groupSize grouped = grouped"
| "applyGrouping_loop (c # cs) i groupSize grouped =
     applyGrouping_loop cs (i + 1) groupSize
       ((if 0 < i \<and> i mod groupSize = 0 then grouped @ [c16 CHR '',''] else grouped) @ [c])"

definition applyGrouping :: "jsstring \<Rightarrow> nat \<Rightarrow> jsstring" where
  "applyGrouping integerStr groupSize = rev (applyGrouping_loop (rev integerStr) 0 groupSize [])"

text \<open>
  The loop that removes trailing zeros of the fraction down to the minimum number of
  fraction digits.
\<close>

function trimTrailingZeros :: "jsstring \<Rightarrow> nat \<Rightarrow> jsstring" where
  "trimTrailingZeros fractionPart minFrac =
     (if minFrac < length fractionPart \<and> endsWith fractionPart (c16 CHR ''0'')
      then trimTrailingZeros (butlast fractionPart) minFrac
      else fractionPart)"
  by pat_completeness auto
termination
  by (relation "measure (\<lambda>(fractionPart, minFrac). length fractionPart)")
     (auto simp: endsWith_def)

declare trimTrailingZeros.simps [simp del]

definition formatStandard :: "DecimalFormat \<Rightarrow> number \<Rightarrow> error + jsstring" where
  "formatStandard this val =
     (let pp = parsedPattern this
      in case round_value this val (maxFractionDigits pp) of
           Inl e \<Rightarrow> Inl e
         | Inr rounded \<Rightarrow>
             let absRounded = Math_abs rounded;
                 factor = Math_pow10 (of_count (maxFractionDigits pp));
                 scaled = Math_round (js_mul absRounded factor);
                 integerPart = Number_toString (Math_floor (js_div scaled factor));
                 fractionPart = padStart (Number_toString (js_rem scaled factor))
                                  (maxFractionDigits pp) (c16 CHR ''0'');
                 integerPart =
                   (if minIntegerDigits pp = 0 \<and> integerPart = ustr ''0'' then []
                    else if length integerPart < minIntegerDigits pp
                      then repeat (c16 CHR ''0'') (minIntegerDigits pp - length integerPart)
                           @ integerPart
                    else integerPart);
                 integerPart =
                   (if groupingUsed pp \<and> 0 < groupingSize pp
                    then applyGrouping integerPart (groupingSize pp) else integerPart);
                 fractionPart = trimTrailingZeros fractionPart (minFractionDigits pp)
             in Inr (if 0 < length fractionPart \<or> decimalSeparatorAlwaysShown pp
                     then integerPart @ ustr ''.'' @ fractionPart
                     else integerPart))"

text \<open>\<open>split('.')\<close> of the mantissa string: \<open>parts[0]\<close> and \<open>parts[1] || ''\<close>.\<close>

definition split_dot :: "jsstring \<Rightarrow> jsstring \<times> jsstring" where
  "split_dot str =
     (let dot = c16 CHR ''.''
      in (takeWhile (\<lambda>c. c \<noteq> dot) str,
          case dropWhile (\<lambda>c. c \<noteq> dot) str of
            [] \<Rightarrow> []
          | _ # r \<Rightarrow> takeWhile (\<lambda>c. c \<noteq> dot) r))"

definition formatExponential :: "DecimalFormat \<Rightarrow> number \<Rightarrow> error + jsstring" where
  "formatExponential this val =
     (let pp = parsedPattern this
      in if js_eq val ZERO then
           Inr (repeat (c16 CHR ''0'') (minIntegerDigits pp)
                @ (if 0 < maxFractionDigits pp then ustr ''.'' else [])
                @ ustr ''E'' @ repeat (c16 CHR ''0'') (minExponentDigits pp))
         else
           let exponent = Math_floor (Math_log10 val);
               mantissa = js_div val (Math_pow10 exponent)
           in case round_value this mantissa (maxFractionDigits pp) of
                Inl e \<Rightarrow> Inl e
              | Inr rounded \<Rightarrow>
                  (case Number_toFixed rounded (maxFractionDigits pp) of
                     Inl e \<Rightarrow> Inl e
                   | Inr mantissaStr \<Rightarrow>
                       let (intPart, fracPart) = split_dot mantissaStr;
                           fracPart = trimTrailingZeros fracPart (minFractionDigits pp);
                           result = (if 0 < length fracPart
                                     then intPart @ ustr ''.'' @ fracPart else intPart);
                           expStr = padStart (Number_toString (Math_abs exponent))
                                      (minExponentDigits pp) (c16 CHR ''0'')
                       in Inr (result @ ustr ''E''
                               @ (if js_ge exponent ZERO then [] else ustr ''-'') @ expStr)))"

text \<open>
  \<open>format\<close> takes a number or a string; a string goes through \<open>parseFloat\<close> first.
\<close>

datatype input = Num number | Str jsstring

definition format :: "DecimalFormat \<Rightarrow> input \<Rightarrow> error + jsstring" where
  "format this arg =
     (let num = (case arg of Str str \<Rightarrow> parseFloat str | Num n \<Rightarrow> n)
      in if isNaN num then Inl CannotFormatNaN
         else if \<not> isFinite num
           then Inr (if js_gt num ZERO then [INFINITY_GLYPH] else ustr ''-'' @ [INFINITY_GLYPH])
         else
           let pp = parsedPattern this;
               val = js_mul num (of_count (multiplier pp));
               isNegative = (js_lt val ZERO \<and> \<not> js_eq val ZERO);
               prefix = (if isNegative then negativePrefix pp else positivePrefix pp);
               suffix = (if isNegative then negativeSuffix pp else positiveSuffix pp);
               formatted = (if useExponentialNotation pp
                            then formatExponential this (Math_abs val)
                            else formatStandard this val)
           in case formatted of
                Inl e \<Rightarrow> Inl e
              | Inr body \<Rightarrow> Inr (prefix @ body @ suffix))"

section \<open>DecimalFormat.ts: the methods as commands on the instance\<close>

text \<open>
  The functions above take the instance as an argument and so cannot tell whether a
  method writes to it. Here a method body is a command: it takes the instance before the
  call and yields the outcome (the value returned or the error thrown) together with the
  instance after the call. A body is put together from five steps: \<open>returns\<close>, \<open>throws\<close>,
  the read of a field of \<open>this\<close>, the assignment to a field of \<open>this\<close>, and the sequence
  \<open>then_do\<close> of two commands, in which a throw of the first skips the second and keeps the
  assignments made so far.
\<close>

type_synonym 'a command = "DecimalFormat \<Rightarrow> (error + 'a) \<times> DecimalFormat"

definition returns :: "'a \<Rightarrow> 'a command" where
  "returns x = (\<lambda>this. (Inr x, this))"

definition throws :: "error \<Rightarrow> 'a command" where
  "throws e = (\<lambda>this. (Inl e, this))"

definition reads :: "(DecimalFormat \<Rightarrow> 'a) \<Rightarrow> 'a command" where
  "reads field = (\<lambda>this. (Inr (field this), this))"

definition assigns :: "(DecimalFormat \<Rightarrow> DecimalFormat) \<Rightarrow> unit command" where
  "assigns upd = (\<lambda>this. (Inr (), upd this))"

definition then_do :: "'a command \<Rightarrow> ('a \<Rightarrow> 'b command) \<Rightarrow> 'b command" where
  "then_do c f = (\<lambda>this. case c this of
                              (Inl e, this') \<Rightarrow> (Inl e, this')
                            | (Inr x, this') \<Rightarrow> f x this')"

text \<open>
  The two methods that assign: \<open>applyPattern\<close> sets \<open>this.pattern\<close> and then
  \<open>this.parsedPattern\<close>, \<open>setRoundingMode\<close> sets \<open>this.roundingMode\<close>.
\<close>

definition applyPattern_cmd :: "jsstring \<Rightarrow> unit command" where
  "applyPattern_cmd p =
     then_do (assigns (\<lambda>this. this\<lparr>pattern := p\<rparr>))
       (\<lambda>_. assigns (\<lambda>this. this\<lparr>parsedPattern := parsePattern p\<rparr>))"

definition setRoundingMode_cmd :: "RoundingMode \<Rightarrow> unit command" where
  "setRoundingMode_cmd mode = assigns (\<lambda>this. this\<lparr>roundingMode := mode\<rparr>)"

text \<open>
  \<open>roundInteger\<close> and \<open>round\<close>: the one access to the instance is the read of
  \<open>this.roundingMode\<close> by the switch.
\<close>

definition roundInteger_cmd :: "number \<Rightarrow> number command" where
  "roundInteger_cmd val =
     (let sign = (if js_lt val ZERO then js_neg ONE else ONE);
          absValue = Math_abs val
      in then_do (reads roundingMode)
           (\<lambda>mode. case mode of
                UP \<Rightarrow> returns (js_mul sign (Math_ceil absValue))
              | DOWN \<Rightarrow> returns (js_mul sign (Math_floor absValue))
              | CEILING \<Rightarrow> returns (Math_ceil val)
              | FLOOR \<Rightarrow> returns (Math_floor val)
              | HALF_UP \<Rightarrow> returns (js_mul sign (Math_round absValue))
              | HALF_DOWN \<Rightarrow>
                  returns (js_mul sign
                    (if js_eq (Math_floor (js_add absValue HALF))
                              (Math_ceil (js_sub absValue HALF))
                     then Math_floor absValue else Math_round absValue))
              | HALF_EVEN \<Rightarrow>
                  (let floored = Math_floor absValue;
                       fraction = js_sub absValue floored;
                       result =
                         (if js_gt fraction HALF then js_add floored ONE
                          else if js_lt fraction HALF then floored
                          else if js_eq (js_rem floored TWO) ZERO then floored
                          else js_add floored ONE)
                   in returns (js_mul sign result))
              | UNNECESSARY \<Rightarrow>
                  if \<not> js_eq val (Math_floor val) then throws RoundingNecessary
                  else returns val))"

definition round_cmd :: "number \<Rightarrow> nat \<Rightarrow> number command" where
  "round_cmd val scale =
     (if scale = 0 then roundInteger_cmd val
      else
        let factor = Math_pow10 (of_count scale);
            sign = (if js_ge val ZERO then ONE else js_neg ONE);
            absValue = Math_abs val;
            scaled = js_mul absValue factor
        in then_do
             (then_do (reads roundingMode)
                (\<lambda>mode. case mode of
                     UP \<Rightarrow> returns (Math_ceil scaled)
                   | DOWN \<Rightarrow> returns (Math_floor scaled)
                   | CEILING \<Rightarrow>
                       returns (if js_gt sign ZERO then Math_ceil scaled else Math_floor scaled)
                   | FLOOR \<Rightarrow>
                       returns (if js_gt sign ZERO then Math_floor scaled else Math_ceil scaled)
                   | HALF_UP \<Rightarrow> returns (Math_round (js_add scaled EPSILON))
                   | HALF_DOWN \<Rightarrow>
                       (let floored = Math_floor scaled;
                            fraction = js_sub scaled floored
                        in returns (if js_gt fraction HALF then js_add floored ONE
                                    else floored))
                   | HALF_EVEN \<Rightarrow>
                       (let floored = Math_floor scaled;
                            fraction = js_sub scaled floored
                        in returns
                             (if js_gt fraction (js_add HALF EPSILON) then js_add floored ONE
                              else if js_lt fraction (js_sub HALF EPSILON) then floored
                              else if js_eq (js_rem floored TWO) ZERO then floored
                              else js_add floored ONE))
                   | UNNECESSARY \<Rightarrow>
                       if js_gt (Math_abs (js_sub scaled (Math_round scaled))) EPSILON
                       then throws RoundingNecessary
                       else returns (Math_round scaled)))
             (\<lambda>roundedScaled.
                 case Number_toFixed (js_div roundedScaled factor) scale of
                   Inl e \<Rightarrow> throws e
                 | Inr str \<Rightarrow> returns (js_mul sign (parseFloat str))))"

text \<open>
  \<open>applyGrouping\<close> is called on \<open>this\<close> and touches no field.
\<close>

definition applyGrouping_cmd :: "jsstring \<Rightarrow> nat \<Rightarrow> jsstring command" where
  "applyGrouping_cmd integerStr groupSize = returns (applyGrouping integerStr groupSize)"

text \<open>
  \<open>formatStandard\<close>: the fields of \<open>this.parsedPattern\<close> are read before the call of
  \<open>round\<close>, after it, and again after the call of \<open>applyGrouping\<close>, where the body uses
  them.
\<close>

definition formatStandard_cmd :: "number \<Rightarrow> jsstring command" where
  "formatStandard_cmd val =
     then_do (reads (\<lambda>this. maxFractionDigits (parsedPattern this)))
       (\<lambda>maxFrac.
     then_do (round_cmd val maxFrac)
       (\<lambda>rounded.
     then_do (reads parsedPattern)
       (\<lambda>pp.
          let absRounded = Math_abs rounded;
              factor = Math_pow10 (of_count (maxFractionDigits pp));
              scaled = Math_round (js_mul absRounded factor);
              integerPart = Number_toString (Math_floor (js_div scaled factor));
              fractionPart = padStart (Number_toString (js_rem scaled factor))
                               (maxFractionDigits pp) (c16 CHR ''0'');
              integerPart =
                (if minIntegerDigits pp = 0 \<and> integerPart = ustr ''0'' then []
                 else if length integerPart < minIntegerDigits pp
                   then repeat (c16 CHR ''0'') (minIntegerDigits pp - length integerPart)
                        @ integerPart
                 else integerPart)
          in then_do
               (if groupingUsed pp \<and> 0 < groupingSize pp
                then applyGrouping_cmd integerPart (groupingSize pp)
                else returns integerPart)
               (\<lambda>integerPart.
             then_do (reads parsedPattern)
               (\<lambda>pp.
                  let fractionPart = trimTrailingZeros fractionPart (minFractionDigits pp)
                  in returns (if 0 < length fractionPart \<or> decimalSeparatorAlwaysShown pp
                              then integerPart @ ustr ''.'' @ fractionPart
                              else integerPart))))))"

definition formatExponential_cmd :: "number \<Rightarrow> jsstring command" where
  "formatExponential_cmd val =
     (if js_eq val ZERO then
        then_do (reads parsedPattern)
          (\<lambda>pp. returns (repeat (c16 CHR ''0'') (minIntegerDigits pp)
                         @ (if 0 < maxFractionDigits pp then ustr ''.'' else [])
                         @ ustr ''E'' @ repeat (c16 CHR ''0'') (minExponentDigits pp)))
      else
        let exponent = Math_floor (Math_log10 val);
            mantissa = js_div val (Math_pow10 exponent)
        in then_do (reads (\<lambda>this. maxFractionDigits (parsedPattern this)))
             (\<lambda>maxFrac.
           then_do (round_cmd mantissa maxFrac)
             (\<lambda>rounded.
           then_do (reads parsedPattern)
             (\<lambda>pp.
                case Number_toFixed rounded (maxFractionDigits pp) of
                  Inl e \<Rightarrow> throws e
                | Inr mantissaStr \<Rightarrow>
                    let (intPart, fracPart) = split_dot mantissaStr;
                        fracPart = trimTrailingZeros fracPart (minFractionDigits pp);
                        result = (if 0 < length fracPart
                                  then intPart @ ustr ''.'' @ fracPart else intPart);
                        expStr = padStart (Number_toString (Math_abs exponent))
                                   (minExponentDigits pp) (c16 CHR ''0'')
                    in returns (result @ ustr ''E''
                                @ (if js_ge exponent ZERO then [] else ustr ''-'')
                                @ expStr)))))"

definition format_cmd :: "input \<Rightarrow> jsstring command" where
  "format_cmd arg =
     (let num = (case arg of Str str \<Rightarrow> parseFloat str | Num n \<Rightarrow> n)
      in if isNaN num then throws CannotFormatNaN
         else if \<not> isFinite num
           then returns (if js_gt num ZERO then [INFINITY_GLYPH]
                         else ustr ''-'' @ [INFINITY_GLYPH])
         else
           then_do (reads parsedPattern)
             (\<lambda>pp.
                let val = js_mul num (of_count (multiplier pp));
                    isNegative = (js_lt val ZERO \<and> \<not> js_eq val ZERO);
                    prefix = (if isNegative then negativePrefix pp else positivePrefix pp);
                    suffix = (if isNegative then negativeSuffix pp else positiveSuffix pp)
                in then_do
                     (if useExponentialNotation pp
                      then formatExponential_cmd (Math_abs val)
                      else formatStandard_cmd val)
                     (\<lambda>formatted. returns (prefix @ formatted @ suffix))))"

section \<open>Notions the statements use\<close>

text \<open>
  The number body of a call: the string \<open>formatted\<close> that \<open>format\<close> computes from
  the scaled value and wraps in the prefix and the suffix.
\<close>

definition number_body :: "DecimalFormat \<Rightarrow> number \<Rightarrow> error + jsstring" where
  "number_body this num =
     (let pp = parsedPattern this;
          val = js_mul num (of_count (multiplier pp))
      in if useExponentialNotation pp
         then formatExponential this (Math_abs val)
         else formatStandard this val)"

text \<open>
  The exactness test of the two \<open>UNNECESSARY\<close> branches, as a predicate of the value
  handed to \<open>round\<close> and the scale. At scale 0 it is \<open>value === Math.floor(value)\<close>,
  with no tolerance; at a positive scale the scaled magnitude, computed in double
  arithmetic, is within \<open>0.0000000001\<close> of \<open>Math.round\<close> of itself.
\<close>

definition exact_at_scale :: "number \<Rightarrow> nat \<Rightarrow> bool" where
  "exact_at_scale val scale =
     (if scale = 0 then js_eq val (Math_floor val)
      else
        let scaled = js_mul (Math_abs val) (Math_pow10 (of_count scale))
        in \<not> js_gt (Math_abs (js_sub scaled (Math_round scaled))) EPSILON)"

section \<open>Evaluation rules\<close>

text \<open>
  Unfolding rules for running the model on literals. The recursive equations and the
  definitions with a number or string argument are instantiated to constructor forms, so
  that they rewrite a call only once its argument has been computed.
\<close>

lemmas bitlength_eval = bitlength.simps[of 0] bitlength.simps[of 1] bitlength.simps[of "Suc 0"] bitlength.simps[of "numeral k" for k]
lemmas nat_digits_pos_eval = nat_digits_pos.simps[of 0] nat_digits_pos.simps[of 1] nat_digits_pos.simps[of "Suc 0"] nat_digits_pos.simps[of "numeral k" for k]
lemmas fl_eval = fl_def[of 0] fl_def[of 1] fl_def[of "numeral a" for a] fl_def[of "numeral a / numeral b" for a b] fl_def[of "1 / numeral b" for b]
lemmas shortest_digits_eval = shortest_digits.simps[of 1] shortest_digits.simps[of "numeral a" for a]
  shortest_digits.simps[of "numeral a / numeral b" for a b] shortest_digits.simps[of "1 / numeral b" for b]
lemmas trim_eval = trimTrailingZeros.simps[of "[]"] trimTrailingZeros.simps[of "x # xs" for x xs]
lemmas num_eval = round_double_def fl_eval binade_def bitlength_eval pow2_def pow10_def roundTiesToEven_def Let_def sval_def double_of_def
  ZERO_def ONE_def TWO_def HALF_def EPSILON_def js_sub_def js_gt_def js_ge_def of_count_def
lemmas str_eval = shortest_digits_eval nat_digits_def nat_digits_pos_eval ustr_def c16_def digit_char_def decade_def
  Number_toString_def[of NaN] Number_toString_def[of "Infinity s" for s] Number_toString_def[of "Finite s m" for s m]
  Number_toFixed_def[of NaN] Number_toFixed_def[of "Infinity s" for s] Number_toFixed_def[of "Finite s m" for s m]
  is_digit_def digit_val_def digits_val_def parseFloat_def[of "[]"] parseFloat_def[of "x # xs" for x xs]
  parse_exponent_def is_whitespace_def
  padStart_def repeat_def endsWith_def lastIndexOf_def substring_def substring_from_def trim_eval applyGrouping_def split_dot_def
lemmas pat_eval = parsePattern_def[of "[]"] parsePattern_def[of "x # xs" for x xs]
  parseSubpattern_def[of "[]"] parseSubpattern_def[of "x # xs" for x xs] findUnquotedSemicolon_def
  scan_char_def scanner_init_def is_number_char_def count_char_def PERMILLE_def MAX_SAFE_INTEGER_def
lemmas fmt_eval = new_DecimalFormat_def DEFAULT_PATTERN_def applyPattern_def setRoundingMode_def toPattern_def
  roundInteger_def[of _ NaN] roundInteger_def[of _ "Infinity s" for s] roundInteger_def[of _ "Finite s m" for s m]
  round_value_def[of _ NaN] round_value_def[of _ "Infinity s" for s] round_value_def[of _ "Finite s m" for s m]
  formatStandard_def[of _ NaN] formatStandard_def[of _ "Infinity s" for s] formatStandard_def[of _ "Finite s m" for s m]
  formatExponential_def[of _ NaN] formatExponential_def[of _ "Infinity s" for s] formatExponential_def[of _ "Finite s m" for s m]
  format_def[of _ "Num n" for n] format_def[of _ "Str s" for s] INFINITY_GLYPH_def
lemmas body_eval = number_body_def[of _ NaN] number_body_def[of _ "Infinity s" for s]
  number_body_def[of _ "Finite s m" for s m]
lemmas exact_eval = exact_at_scale_def[of NaN] exact_at_scale_def[of "Infinity s" for s]
  exact_at_scale_def[of "Finite s m" for s m]
lemmas all_eval = num_eval str_eval pat_eval fmt_eval body_eval exact_eval

section \<open>The instance state: pattern text, rules and rounding mode\<close>

lemma tie_HALF_UP_after_applyPattern:
  "format (applyPattern (setRoundingMode (new_DecimalFormat None) HALF_UP) (ustr ''0.00''))
     (Num (double_of (1245 / 1000))) = Inr (ustr ''1.25'')"
  by (simp add: all_eval)

lemma tie_HALF_EVEN_default:
  "format (new_DecimalFormat (Some (ustr ''0.00''))) (Num (double_of (1245 / 1000)))
     = Inr (ustr ''1.24'')"
  by (simp add: all_eval)

text \<open>
  Claim C2. \<open>applyPattern(p)\<close> replaces the compiled rules by those compiled from \<open>p\<close>
  and leaves the rounding mode as it was: a mode set before the call is the mode read
  after it, and a later \<open>format\<close> is the \<open>format\<close> of the instance with the rules of
  \<open>p\<close> and that mode. With \<open>HALF_UP\<close> set before \<open>applyPattern('0.00')\<close> the tie
  \<open>1.245\<close> formats to \<open>1.25\<close>, where the default \<open>HALF_EVEN\<close> gives \<open>1.24\<close>.
\<close>

theorem C2_applyPattern_keeps_roundingMode:
  "parsedPattern (applyPattern this p) = parsePattern p
   \<and> roundingMode (applyPattern this p) = roundingMode this
   \<and> getRoundingMode (applyPattern (setRoundingMode this mode) p) = mode
   \<and> format (applyPattern (setRoundingMode this mode) p) arg
       = format \<lparr>pattern = p, parsedPattern = parsePattern p, roundingMode = mode\<rparr> arg
   \<and> format (applyPattern (setRoundingMode (new_DecimalFormat None) HALF_UP) (ustr ''0.00''))
         (Num (double_of (1245 / 1000))) = Inr (ustr ''1.25'')
   \<and> format (new_DecimalFormat (Some (ustr ''0.00''))) (Num (double_of (1245 / 1000)))
       = Inr (ustr ''1.24'')"
proof -
  have "applyPattern (setRoundingMode this mode) p
        = \<lparr>pattern = p, parsedPattern = parsePattern p, roundingMode = mode\<rparr>"
    by (cases this) (simp add: applyPattern_def setRoundingMode_def)
  then show ?thesis
    using tie_HALF_UP_after_applyPattern tie_HALF_EVEN_default
    by (simp add: applyPattern_def getRoundingMode_def)
qed

text \<open>
  Claim C3, as stated, at the empty string: constructing with \<open>''\<close> leaves the default
  pattern text in place, and \<open>toPattern()\<close> returns \<open>#,##0.###\<close>, not \<open>''\<close>.
\<close>

theorem C3_toPattern_empty_counterexample:
  "toPattern (new_DecimalFormat (Some [])) = ustr ''#,##0.###''
   \<and> toPattern (new_DecimalFormat (Some [])) \<noteq> []"
  by (simp add: toPattern_def new_DecimalFormat_def DEFAULT_PATTERN_def ustr_def Let_def)

text \<open>
  Claim C3, amended. \<open>toPattern()\<close> returns the pattern string verbatim after
  construction with any non-empty \<open>p\<close>, and after \<open>applyPattern(p)\<close> for every \<open>p\<close>,
  the empty string included.
\<close>

theorem C3_toPattern_round_trip:
  "(p \<noteq> [] \<longrightarrow> toPattern (new_DecimalFormat (Some p)) = p)
   \<and> toPattern (applyPattern this p) = p"
  by (simp add: toPattern_def new_DecimalFormat_def applyPattern_def)

theorem C3_toPattern_round_trip_witness:
  "ustr ''$#,##0.00'' \<noteq> []
   \<and> toPattern (new_DecimalFormat (Some (ustr ''$#,##0.00''))) = ustr ''$#,##0.00''
   \<and> toPattern (applyPattern (new_DecimalFormat None) []) = []"
  using C3_toPattern_round_trip [of "ustr ''$#,##0.00''" "new_DecimalFormat None"]
        C3_toPattern_round_trip [of "[]" "new_DecimalFormat None"]
  by (simp add: ustr_def)

section \<open>Inputs that are not finite\<close>

text \<open>
  Claim C8. Whatever the pattern, the rules and the rounding mode, \<open>format(NaN)\<close>
  throws and returns no string, \<open>format(+Infinity)\<close> is the infinity glyph and
  \<open>format(-Infinity)\<close> is a minus sign and the glyph: neither prefix nor suffix, neither
  multiplier nor digit rule takes part.
\<close>

theorem C8_nan_and_infinity:
  "format this (Num NaN) = Inl CannotFormatNaN
   \<and> format this (Num (Infinity False)) = Inr [INFINITY_GLYPH]
   \<and> format this (Num (Infinity True)) = Inr (ustr ''-'' @ [INFINITY_GLYPH])"
  by (simp add: format_def js_gt_def ZERO_def)

section \<open>Formatting leaves the instance alone\<close>

text \<open>
  Running a command gives the value of the function of the same name and the instance
  after the call. The two commands that assign give a changed instance.
\<close>

lemmas command_defs = then_do_def reads_def returns_def throws_def assigns_def

lemma applyPattern_cmd_run: "applyPattern_cmd p this = (Inr (), applyPattern this p)"
  by (simp add: applyPattern_cmd_def applyPattern_def command_defs)

lemma setRoundingMode_cmd_run:
  "setRoundingMode_cmd mode this = (Inr (), setRoundingMode this mode)"
  by (simp add: setRoundingMode_cmd_def setRoundingMode_def command_defs)

lemma roundInteger_cmd_run: "roundInteger_cmd val this = (roundInteger this val, this)"
  by (cases "roundingMode this")
     (simp_all add: roundInteger_cmd_def roundInteger_def command_defs Let_def)

lemma round_cmd_run: "round_cmd val sc this = (round_value this val sc, this)"
proof (cases "sc = 0")
  case True
  then show ?thesis by (simp add: round_cmd_def round_value_def roundInteger_cmd_run)
next
  case False
  then show ?thesis
    by (cases "roundingMode this")
       (simp_all add: round_cmd_def round_value_def command_defs Let_def split: sum.splits)
qed

lemma formatStandard_cmd_run: "formatStandard_cmd val this = (formatStandard this val, this)"
  by (simp add: formatStandard_cmd_def formatStandard_def applyGrouping_cmd_def command_defs
      round_cmd_run Let_def split: sum.splits)

lemma formatExponential_cmd_run:
  "formatExponential_cmd val this = (formatExponential this val, this)"
  by (simp add: formatExponential_cmd_def formatExponential_def command_defs
      round_cmd_run Let_def split: sum.splits prod.splits)

lemma format_cmd_run: "format_cmd arg this = (format this arg, this)"
  by (simp add: format_cmd_def format_def command_defs formatStandard_cmd_run
      formatExponential_cmd_run Let_def split: sum.splits)

text \<open>
  Claim C10. The body of \<open>format\<close>, run as a command on an instance, reads fields and
  calls \<open>formatStandard\<close>, \<open>formatExponential\<close>, \<open>round\<close>, \<open>roundInteger\<close> and
  \<open>applyGrouping\<close>, none of which assigns: the instance after the call, returning or
  throwing, is the instance before it, with its pattern text, its rules and its
  rounding mode. The outcome is the value of \<open>format\<close> on that instance and the argument,
  and a second call with the same argument on the instance the first one leaves has the
  same outcome.
\<close>

theorem C10_format_pure:
  "snd (format_cmd arg this) = this
   \<and> fst (format_cmd arg this) = format this arg
   \<and> fst (format_cmd arg (snd (format_cmd arg this))) = fst (format_cmd arg this)"
  by (simp add: format_cmd_run)

section \<open>Patterns without a number part\<close>

lemma scan_char_stays_prefix:
  "\<not> is_number_char ch \<Longrightarrow> sc_state sc = StPrefix \<Longrightarrow> sc_numberPart sc = []
   \<Longrightarrow> sc_state (scan_char sc ch) = StPrefix \<and> sc_numberPart (scan_char sc ch) = []"
  by (simp add: scan_char_def)

lemma scan_stays_prefix:
  "\<forall>c\<in>set s. \<not> is_number_char c \<Longrightarrow> sc_state sc = StPrefix \<Longrightarrow> sc_numberPart sc = []
   \<Longrightarrow> sc_state (foldl scan_char sc s) = StPrefix \<and> sc_numberPart (foldl scan_char sc s) = []"
proof (induction s arbitrary: sc)
  case Nil
  then show ?case by simp
next
  case (Cons c cs)
  have "sc_state (scan_char sc c) = StPrefix \<and> sc_numberPart (scan_char sc c) = []"
    using Cons.prems by (intro scan_char_stays_prefix) simp_all
  with Cons.IH [of "scan_char sc c"] Cons.prems(1) show ?case by simp
qed

lemma parseSubpattern_no_number_chars:
  assumes "\<forall>c\<in>set s. \<not> is_number_char c"
  shows "sub_minIntegerDigits (parseSubpattern s) = 1
         \<and> sub_maxIntegerDigits (parseSubpattern s) = MAX_SAFE_INTEGER
         \<and> sub_minFractionDigits (parseSubpattern s) = 0
         \<and> sub_maxFractionDigits (parseSubpattern s) = 0"
proof -
  have "sc_numberPart (foldl scan_char scanner_init s) = []"
    using scan_stays_prefix [OF assms, of scanner_init] by (simp add: scanner_init_def)
  then show ?thesis by (simp add: parseSubpattern_def Let_def)
qed

text \<open>
  Claim C5, as stated, at the pattern \<open>abc\<close>: it has none of the characters \<open>0 # , .\<close>,
  and the getters return \<open>minIntegerDigits = 1\<close> and
  \<open>maxIntegerDigits = Number.MAX_SAFE_INTEGER\<close>, not zero.
\<close>

theorem C5_no_digit_chars_counterexample:
  "filter is_number_char (ustr ''abc'') = []
   \<and> getMinimumIntegerDigits (new_DecimalFormat (Some (ustr ''abc''))) = 1
   \<and> getMaximumIntegerDigits (new_DecimalFormat (Some (ustr ''abc''))) = 9007199254740991"
  by (simp add: getMinimumIntegerDigits_def getMaximumIntegerDigits_def all_eval)

text \<open>
  Claim C5, amended. A sub-pattern with none of the characters \<open>0 # , .\<close> compiles to
  the initial digit counts of \<open>parseSubpattern\<close>: \<open>minIntegerDigits = 1\<close>,
  \<open>maxIntegerDigits = Number.MAX_SAFE_INTEGER\<close>, \<open>minFractionDigits = 0\<close> and
  \<open>maxFractionDigits = 0\<close>; the getters return them after construction with such a
  non-empty pattern.
\<close>

theorem C5_no_digit_chars_defaults:
  assumes "\<forall>c\<in>set s. \<not> is_number_char c"
  shows "sub_minIntegerDigits (parseSubpattern s) = 1
         \<and> sub_maxIntegerDigits (parseSubpattern s) = MAX_SAFE_INTEGER
         \<and> sub_minFractionDigits (parseSubpattern s) = 0
         \<and> sub_maxFractionDigits (parseSubpattern s) = 0
         \<and> (s \<noteq> [] \<longrightarrow>
              getMinimumIntegerDigits (new_DecimalFormat (Some s)) = 1
              \<and> getMaximumIntegerDigits (new_DecimalFormat (Some s)) = MAX_SAFE_INTEGER
              \<and> getMinimumFractionDigits (new_DecimalFormat (Some s)) = 0
              \<and> getMaximumFractionDigits (new_DecimalFormat (Some s)) = 0)"
proof -
  let ?pos = "if 0 \<le> findUnquotedSemicolon s
              then substring s 0 (nat (findUnquotedSemicolon s)) else s"
  have "\<forall>c\<in>set ?pos. \<not> is_number_char c"
    using assms by (auto simp: substring_def dest: in_set_takeD)
  from parseSubpattern_no_number_chars [OF this] parseSubpattern_no_number_chars [OF assms]
  show ?thesis
    by (simp add: new_DecimalFormat_def parsePattern_def Let_def
        getMinimumIntegerDigits_def getMaximumIntegerDigits_def
        getMinimumFractionDigits_def getMaximumFractionDigits_def)
qed

theorem C5_no_digit_chars_defaults_witness:
  "filter is_number_char (ustr ''abc'') = [] \<and> ustr ''abc'' \<noteq> []
   \<and> sub_minIntegerDigits (parseSubpattern (ustr ''abc'')) = 1
   \<and> sub_maxFractionDigits (parseSubpattern (ustr ''abc'')) = 0
   \<and> getMaximumIntegerDigits (new_DecimalFormat (Some (ustr ''abc''))) = MAX_SAFE_INTEGER"
proof -
  have h: "\<forall>c\<in>set (ustr ''abc''). \<not> is_number_char c"
    by (simp add: ustr_def c16_def is_number_char_def)
  have n: "ustr ''abc'' \<noteq> []" by (simp add: ustr_def)
  have f: "filter is_number_char (ustr ''abc'') = []"
    by (simp add: ustr_def c16_def is_number_char_def)
  show ?thesis using f n C5_no_digit_chars_defaults [OF h] by simp
qed


section \<open>Negative zero\<close>

lemma fl_zero: "fl 0 = 0"
  by (simp add: fl_def)

lemma round_double_zero: "round_double s 0 = Finite s 0"
  by (simp add: round_double_def fl_zero)

lemma of_count_cases: "of_count m = Infinity False \<or> (\<exists>r. of_count m = Finite False r)"
  by (simp add: of_count_def round_double_def Let_def)

lemma formatStandard_abs_cong:
  assumes "map_sum id Math_abs (round_value this v (maxFractionDigits (parsedPattern this)))
           = map_sum id Math_abs (round_value this w (maxFractionDigits (parsedPattern this)))"
  shows "formatStandard this v = formatStandard this w"
proof (cases "round_value this v (maxFractionDigits (parsedPattern this))")
  case (Inl e)
  with assms have "round_value this w (maxFractionDigits (parsedPattern this)) = Inl e"
    by (cases "round_value this w (maxFractionDigits (parsedPattern this))") simp_all
  with Inl show ?thesis by (simp add: formatStandard_def Let_def)
next
  case (Inr a)
  with assms obtain b where
    b: "round_value this w (maxFractionDigits (parsedPattern this)) = Inr b"
    and ab: "Math_abs a = Math_abs b"
    by (cases "round_value this w (maxFractionDigits (parsedPattern this))") simp_all
  show ?thesis by (simp add: formatStandard_def Let_def Inr b ab)
qed

lemma roundInteger_zero:
  "map_sum id Math_abs (roundInteger this (Finite True 0))
   = map_sum id Math_abs (roundInteger this (Finite False 0))"
  by (cases "roundingMode this") (simp_all add: roundInteger_def Let_def ZERO_def sval_def)

lemma round_value_zero:
  "map_sum id Math_abs (round_value this (Finite True 0) sc)
   = map_sum id Math_abs (round_value this (Finite False 0) sc)"
proof (cases "sc = 0")
  case True
  then show ?thesis by (simp add: round_value_def roundInteger_zero)
next
  case False
  have "round_value this (Finite True 0) sc = round_value this (Finite False 0) sc"
    using False by (simp add: round_value_def Let_def js_ge_def ZERO_def sval_def)
  then show ?thesis by simp
qed

lemma format_finite_body:
  "format this (Num (Finite s x)) =
     (let val = js_mul (Finite s x) (of_count (multiplier (parsedPattern this)));
          isNegative = (js_lt val ZERO \<and> \<not> js_eq val ZERO)
      in case number_body this (Finite s x) of
           Inl e \<Rightarrow> Inl e
         | Inr B \<Rightarrow>
             Inr ((if isNegative then negativePrefix (parsedPattern this)
                   else positivePrefix (parsedPattern this))
                  @ B
                  @ (if isNegative then negativeSuffix (parsedPattern this)
                     else positiveSuffix (parsedPattern this))))"
  by (simp add: format_def number_body_def Let_def)

lemma negative_zero_scaled:
  "js_mul (Finite s 0) (of_count m) = NaN \<or> js_mul (Finite s 0) (of_count m) = Finite s 0"
  using of_count_cases [of m] by (auto simp: round_double_zero)

lemma negative_zero_explicit_pattern:
  "format (new_DecimalFormat (Some (ustr ''0.0;(0.0)''))) (Num (Finite True 0)) = Inr (ustr ''0.0'')"
  by (simp add: all_eval)

lemma negative_one_explicit_pattern:
  "format (new_DecimalFormat (Some (ustr ''0.0;(0.0)''))) (Num (Finite True 1)) = Inr (ustr ''(1.0)'')"
  by (simp add: all_eval)

lemma number_body_zero:
  "number_body this (Finite True 0) = number_body this (Finite False 0)"
proof -
  let ?m = "of_count (multiplier (parsedPattern this))"
  from of_count_cases [of "multiplier (parsedPattern this)"]
  consider "?m = Infinity False" | r where "?m = Finite False r" by blast
  then show ?thesis
  proof cases
    case 1
    then show ?thesis by (simp add: number_body_def Let_def)
  next
    case 2
    have std: "formatStandard this (Finite True 0) = formatStandard this (Finite False 0)"
      by (rule formatStandard_abs_cong) (rule round_value_zero)
    show ?thesis by (simp add: number_body_def Let_def 2 round_double_zero std)
  qed
qed

text \<open>
  Claim C4. For every instance, whatever its pattern, rules and rounding mode,
  \<open>format(-0.0)\<close> is \<open>format(0.0)\<close>, and both take the positive branch: the scaled
  value of a zero is a zero (or NaN), the test \<open>value < 0 && value !== 0\<close> fails for it,
  and the result is the positive prefix, the number body of \<open>0.0\<close> and the positive
  suffix, with no minus sign and nothing of the negative sub-pattern. With the pattern
  \<open>0.0;(0.0)\<close>, whose negative sub-pattern wraps the number in parentheses,
  \<open>format(-0.0)\<close> is \<open>0.0\<close> where \<open>format(-1)\<close> is \<open>(1.0)\<close>.
\<close>

theorem C4_negative_zero:
  "format this (Num (Finite True 0)) = format this (Num (Finite False 0))
   \<and> format this (Num (Finite s 0)) =
       (case number_body this (Finite False 0) of
          Inl e \<Rightarrow> Inl e
        | Inr B \<Rightarrow> Inr (positivePrefix (parsedPattern this) @ B
                        @ positiveSuffix (parsedPattern this)))
   \<and> format (new_DecimalFormat (Some (ustr ''0.0;(0.0)''))) (Num (Finite True 0))
       = Inr (ustr ''0.0'')
   \<and> format (new_DecimalFormat (Some (ustr ''0.0;(0.0)''))) (Num (Finite True 1))
       = Inr (ustr ''(1.0)'')"
proof -
  have pos: "format this (Num (Finite s 0)) =
       (case number_body this (Finite False 0) of
          Inl e \<Rightarrow> Inl e
        | Inr B \<Rightarrow> Inr (positivePrefix (parsedPattern this) @ B
                        @ positiveSuffix (parsedPattern this)))" for s
  proof -
    from negative_zero_scaled [of s "multiplier (parsedPattern this)"] show ?thesis
      by (cases s) (auto simp: format_finite_body Let_def ZERO_def sval_def number_body_zero
           split: sum.splits)
  qed
  have eq: "format this (Num (Finite True 0)) = format this (Num (Finite False 0))"
    by (simp only: pos)
  from eq pos [of s] negative_zero_explicit_pattern negative_one_explicit_pattern
  show ?thesis by (intro conjI)
qed

section \<open>Facts about rounding to a double\<close>

lemma bitlength_bounds: "0 < n \<Longrightarrow> 2 ^ (bitlength n - 1) \<le> n \<and> n < 2 ^ bitlength n"
proof (induction n rule: bitlength.induct)
  case (1 n)
  have bl: "bitlength n = Suc (bitlength (n div 2))"
    using "1.prems" by (subst bitlength.simps) simp
  show ?case
  proof (cases "n div 2 = 0")
    case True
    then have "bitlength (n div 2) = 0" by (subst bitlength.simps) simp
    then have b1: "bitlength n = 1" by (simp add: bl)
    from True "1.prems" have n1: "n = 1" by linarith
    show ?thesis unfolding b1 using n1 by simp
  next
    case False
    with "1.IH" "1.prems" have ih: "2 ^ (bitlength (n div 2) - 1) \<le> n div 2"
      "n div 2 < 2 ^ bitlength (n div 2)" by auto
    have "0 < bitlength (n div 2)" using False by (subst bitlength.simps) simp
    then obtain k where k: "bitlength (n div 2) = Suc k" by (cases "bitlength (n div 2)") auto
    define a :: nat where "a = 2 ^ k"
    have d: "2 * (n div 2) \<le> n" "n \<le> 2 * (n div 2) + 1" by linarith+
    from ih have "a \<le> n div 2" "n div 2 < 2 * a" by (simp_all add: k a_def)
    with d have "2 * a \<le> n" "n < 2 * (2 * a)" by linarith+
    then show ?thesis by (simp add: bl k a_def)
  qed
qed

lemma bitlength_pos: "0 < n \<Longrightarrow> 0 < bitlength n"
  by (subst bitlength.simps) simp

lemma pow2_powi: "pow2 e = 2 powi e"
  by (simp add: pow2_def power_int_def field_simps)

lemma pow2_pos: "0 < pow2 e"
  by (simp add: pow2_def)

lemma pow2_mono: "a \<le> b \<Longrightarrow> pow2 a \<le> pow2 b"
  by (simp add: pow2_powi power_int_increasing)

lemma pow2_add: "pow2 (a + b) = pow2 a * pow2 b"
  by (simp add: pow2_powi power_int_add)

lemma pow2_nat: "pow2 (int n) = 2 ^ n"
  by (simp add: pow2_def)

lemma pow2_neg_nat: "pow2 (- int n) = 1 / 2 ^ n"
  by (simp add: pow2_powi power_int_minus_divide)

lemma real_of_nat_pow2_le: "2 ^ k \<le> n \<Longrightarrow> (2::real) ^ k \<le> real n"
proof -
  assume "2 ^ k \<le> n"
  then have "real (2 ^ k) \<le> real n" by (simp only: of_nat_le_iff)
  then show ?thesis by simp
qed

lemma real_of_nat_less_pow2: "n < 2 ^ k \<Longrightarrow> real n + 1 \<le> 2 ^ k"
proof -
  assume "n < 2 ^ k"
  then have "Suc n \<le> 2 ^ k" by simp
  then have "real (Suc n) \<le> real (2 ^ k)" by (simp only: of_nat_le_iff)
  then show ?thesis by simp
qed

lemma binade_bounds:
  assumes "0 < x"
  shows "pow2 (binade x) \<le> x \<and> x < pow2 (binade x + 1)"
proof (cases "1 \<le> x")
  case True
  define n where "n = nat \<lfloor>x\<rfloor>"
  have n: "0 < n" "real n \<le> x" "x < real n + 1"
    using True by (auto simp: n_def)
  from bitlength_pos [OF n(1)] obtain k where k: "bitlength n = Suc k"
    by (cases "bitlength n") auto
  from bitlength_bounds [OF n(1)] have b: "2 ^ k \<le> n" "n < 2 ^ Suc k" by (simp_all add: k)
  have be: "binade x = int k" using True by (simp add: binade_def n_def [symmetric] k)
  have be1: "binade x + 1 = int (Suc k)" by (simp add: be)
  have r1: "(2::real) ^ k \<le> real n" by (rule real_of_nat_pow2_le [OF b(1)])
  have r2: "real n + 1 \<le> 2 ^ Suc k" by (rule real_of_nat_less_pow2 [OF b(2)])
  have p1: "pow2 (binade x) = 2 ^ k" by (simp only: be pow2_nat)
  have p2: "pow2 (binade x + 1) = 2 ^ Suc k" by (simp only: be1 pow2_nat)
  show ?thesis unfolding p1 p2 using r1 r2 n(2,3) by linarith
next
  case False
  define y where "y = 1 / x"
  have y: "1 < y" "x = 1 / y" using False assms by (simp_all add: y_def)
  define n where "n = nat (\<lceil>y\<rceil> - 1)"
  have c2: "2 \<le> \<lceil>y\<rceil>" using y(1) by linarith
  have n: "0 < n" "real n < y" "y \<le> real n + 1"
    using c2 by (auto simp: n_def) linarith
  from bitlength_pos [OF n(1)] obtain k where k: "bitlength n = Suc k"
    by (cases "bitlength n") auto
  from bitlength_bounds [OF n(1)] have b: "2 ^ k \<le> n" "n < 2 ^ Suc k" by (simp_all add: k)
  have be: "binade x = - int (Suc k)"
    using False by (simp add: binade_def y_def [symmetric] n_def [symmetric] k)
  have r1: "(2::real) ^ k \<le> real n" by (rule real_of_nat_pow2_le [OF b(1)])
  have r2: "real n + 1 \<le> 2 ^ Suc k" by (rule real_of_nat_less_pow2 [OF b(2)])
  have lo: "1 / 2 ^ Suc k \<le> x"
  proof -
    have "y \<le> 2 ^ Suc k" using n(3) r2 by linarith
    then have "1 / 2 ^ Suc k \<le> 1 / y" using y(1) by (intro divide_left_mono) auto
    then show ?thesis by (simp only: y(2))
  qed
  have hi: "x < 1 / 2 ^ k"
  proof -
    have "2 ^ k < y" using n(2) r1 by linarith
    then have "1 / y < 1 / 2 ^ k" using y(1) by (intro divide_strict_left_mono) auto
    then show ?thesis by (simp only: y(2))
  qed
  have be1: "binade x + 1 = - int k" by (simp add: be)
  have p1: "pow2 (binade x) = 1 / 2 ^ Suc k" by (simp only: be pow2_neg_nat)
  have p2: "pow2 (binade x + 1) = 1 / 2 ^ k" by (simp only: be1 pow2_neg_nat)
  show ?thesis unfolding p1 p2 using lo hi by linarith
qed


lemma roundTiesToEven_ge_floor: "\<lfloor>t\<rfloor> \<le> roundTiesToEven t"
  by (simp add: roundTiesToEven_def Let_def)

lemma fl_quantum_ge: "pow2 (- 1074) \<le> pow2 (max (binade x) (- 1022) - 52)"
  by (rule pow2_mono) simp

lemma fl_pos:
  assumes "pow2 (- 1074) \<le> x"
  shows "0 < fl x"
proof -
  have x: "0 < x" using assms pow2_pos [of "- 1074"] by linarith
  define q where "q = pow2 (max (binade x) (- 1022) - 52)"
  have q: "0 < q" by (simp add: q_def pow2_pos)
  have "q \<le> x"
  proof (cases "binade x \<le> - 1022")
    case True
    then have "q = pow2 (- 1074)" by (simp add: q_def max_def)
    with assms show ?thesis by simp
  next
    case False
    then have "q = pow2 (binade x - 52)" by (simp add: q_def max_def)
    also have "\<dots> \<le> pow2 (binade x)" by (rule pow2_mono) simp
    also have "\<dots> \<le> x" using binade_bounds [OF x] by simp
    finally show ?thesis .
  qed
  then have "1 \<le> x / q" using q by (simp add: field_simps)
  then have "1 \<le> \<lfloor>x / q\<rfloor>" by linarith
  with roundTiesToEven_ge_floor [of "x / q"] have "1 \<le> roundTiesToEven (x / q)" by linarith
  then have "0 < real_of_int (roundTiesToEven (x / q)) * q" using q by simp
  then show ?thesis using x by (simp add: fl_def Let_def q_def)
qed

lemma double_pos_lower:
  assumes "fl x = x" "0 < x"
  shows "pow2 (- 1074) \<le> x"
proof -
  define q where "q = pow2 (max (binade x) (- 1022) - 52)"
  define k where "k = roundTiesToEven (x / q)"
  have q: "0 < q" by (simp add: q_def pow2_pos)
  have x: "x = real_of_int k * q"
    using assms by (simp add: fl_def Let_def q_def k_def)
  with assms(2) q have "0 < real_of_int k" by (simp add: zero_less_mult_iff)
  then have "0 < k" by simp
  then have "1 \<le> real_of_int k" by simp
  then have "q \<le> real_of_int k * q" using q by simp
  with x fl_quantum_ge [of x] show ?thesis by (simp add: q_def)
qed

section \<open>The sign and the positive prefix\<close>

lemma scan_char_multiplier:
  "sc_multiplier sc \<in> {1, 100, 1000} \<Longrightarrow> sc_multiplier (scan_char sc ch) \<in> {1, 100, 1000}"
  by (auto simp: scan_char_def Let_def split: scan_state.splits)

lemma scan_multiplier:
  "sc_multiplier sc \<in> {1, 100, 1000} \<Longrightarrow> sc_multiplier (foldl scan_char sc s) \<in> {1, 100, 1000}"
proof (induction s arbitrary: sc)
  case Nil
  then show ?case by simp
next
  case (Cons c cs)
  from Cons.IH [OF scan_char_multiplier [OF Cons.prems]] show ?case by simp
qed

lemma parseSubpattern_multiplier: "sub_multiplier (parseSubpattern s) \<in> {1, 100, 1000}"
  using scan_multiplier [of scanner_init s]
  by (simp add: parseSubpattern_def Let_def scanner_init_def)

lemma parsePattern_multiplier: "multiplier (parsePattern p) \<in> {1, 100, 1000}"
  using parseSubpattern_multiplier by (simp add: parsePattern_def Let_def)

lemma of_count_multipliers:
  "of_count 1 = Finite False 1" "of_count 100 = Finite False 100"
  "of_count 1000 = Finite False 1000"
  by (simp_all add: num_eval)

lemma parsePattern_of_count_multiplier:
  "\<exists>m. 1 \<le> m \<and> of_count (multiplier (parsePattern p)) = Finite False m"
  using parsePattern_multiplier [of p] of_count_multipliers by auto

lemma parsePattern_derived_negative:
  assumes "findUnquotedSemicolon p < 0"
  shows "negativePrefix (parsePattern p) = ustr ''-'' @ positivePrefix (parsePattern p)"
    and "negativeSuffix (parsePattern p) = positiveSuffix (parsePattern p)"
  using assms by (simp_all add: parsePattern_def Let_def)

lemma Math_abs_js_mul_sign:
  "Math_abs (js_mul (js_neg ONE) y) = Math_abs (js_mul ONE y)"
  by (cases y) (simp_all add: ONE_def round_double_def Let_def)

lemma integer_floor_ceiling: "(r = real_of_int \<lceil>r\<rceil>) = (r = real_of_int \<lfloor>r\<rfloor>)"
  by (metis ceiling_of_int floor_of_int)

lemma roundInteger_neg_Infinity:
  assumes "roundingMode this \<noteq> CEILING" "roundingMode this \<noteq> FLOOR"
  shows "map_sum id Math_abs (roundInteger this (Infinity True))
         = map_sum id Math_abs (roundInteger this (Infinity False))"
  using assms
  by (cases "roundingMode this")
     (simp_all add: roundInteger_def Let_def ZERO_def js_sub_def js_gt_def HALF_def
        Math_abs_js_mul_sign)

lemma roundInteger_neg_Finite:
  assumes "roundingMode this \<noteq> CEILING" "roundingMode this \<noteq> FLOOR" "0 \<le> m"
  shows "map_sum id Math_abs (roundInteger this (Finite True m))
         = map_sum id Math_abs (roundInteger this (Finite False m))"
  using assms
  by (cases "roundingMode this")
     (simp_all add: roundInteger_def Let_def ZERO_def sval_def Math_abs_js_mul_sign
        integer_floor_ceiling)

lemma round_value_neg_Finite:
  assumes "roundingMode this \<noteq> CEILING" "roundingMode this \<noteq> FLOOR" "0 \<le> m"
  shows "map_sum id Math_abs (round_value this (Finite True m) sc)
         = map_sum id Math_abs (round_value this (Finite False m) sc)"
proof (cases "sc = 0")
  case True
  then show ?thesis using roundInteger_neg_Finite [OF assms] by (simp add: round_value_def)
next
  case False
  then show ?thesis using assms
    by (cases "roundingMode this")
       (auto simp: round_value_def Let_def js_ge_def ZERO_def sval_def Math_abs_js_mul_sign
          split: sum.splits)
qed

lemma round_value_neg_Infinity:
  assumes "roundingMode this \<noteq> CEILING" "roundingMode this \<noteq> FLOOR"
  shows "map_sum id Math_abs (round_value this (Infinity True) sc)
         = map_sum id Math_abs (round_value this (Infinity False) sc)"
proof (cases "sc = 0")
  case True
  then show ?thesis using roundInteger_neg_Infinity [OF assms] by (simp add: round_value_def)
next
  case False
  then show ?thesis using assms
    by (cases "roundingMode this")
       (auto simp: round_value_def Let_def js_ge_def ZERO_def sval_def Math_abs_js_mul_sign
          split: sum.splits)
qed

lemma scaled_value_cases:
  assumes "0 < x" "fl x = x" "1 \<le> m"
  shows "(round_double True (x * m) = Infinity True
          \<and> round_double False (x * m) = Infinity False)
         \<or> (\<exists>r. 0 < r \<and> round_double True (x * m) = Finite True r
                  \<and> round_double False (x * m) = Finite False r)"
proof -
  have "pow2 (- 1074) \<le> x" by (rule double_pos_lower [OF assms(2,1)])
  moreover have "x \<le> x * m" using assms(1,3) by simp
  ultimately have "0 < fl (x * m)" by (intro fl_pos) linarith
  then show ?thesis by (simp add: round_double_def Let_def)
qed

lemma number_body_neg:
  assumes "parsedPattern this = parsePattern p"
      and "roundingMode this \<notin> {CEILING, FLOOR} \<or> useExponentialNotation (parsePattern p)"
      and "0 < x" and "fl x = x"
  shows "number_body this (Finite True x) = number_body this (Finite False x)"
proof -
  obtain m where m: "1 \<le> m" "of_count (multiplier (parsePattern p)) = Finite False m"
    using parsePattern_of_count_multiplier by blast
  show ?thesis
  proof (cases "useExponentialNotation (parsePattern p)")
    case True
    from scaled_value_cases [OF assms(3,4) m(1)] show ?thesis
      by (auto simp: number_body_def Let_def assms(1) m(2) True)
  next
    case False
    with assms(2) have mode: "roundingMode this \<noteq> CEILING" "roundingMode this \<noteq> FLOOR"
      by auto
    from scaled_value_cases [OF assms(3,4) m(1)] show ?thesis
    proof (elim disjE conjE exE)
      assume v: "round_double True (x * m) = Infinity True"
        "round_double False (x * m) = Infinity False"
      have "formatStandard this (Infinity True) = formatStandard this (Infinity False)"
        by (rule formatStandard_abs_cong) (rule round_value_neg_Infinity [OF mode])
      then show ?thesis by (simp add: number_body_def Let_def assms(1) m(2) False v)
    next
      fix r assume r: "0 < r"
        and v: "round_double True (x * m) = Finite True r"
        "round_double False (x * m) = Finite False r"
      have "formatStandard this (Finite True r) = formatStandard this (Finite False r)"
        by (rule formatStandard_abs_cong) (rule round_value_neg_Finite [OF mode], use r in simp)
      then show ?thesis by (simp add: number_body_def Let_def assms(1) m(2) False v)
    qed
  qed
qed

text \<open>
  Claim C1, amended. For a pattern \<open>p\<close> with no unquoted \<open>;\<close> and a finite number
  \<open>v > 0\<close>, under every rounding mode: \<open>format(v)\<close> is the positive prefix, the number
  body of \<open>v\<close> and the positive suffix, and \<open>format(-v)\<close> is a minus sign followed by
  the positive prefix, the number body of \<open>-v\<close> and the positive suffix; when a body
  throws, the call throws that error. The number body of \<open>-v\<close> is the number body of
  \<open>v\<close> under every rounding mode other than \<open>CEILING\<close> and \<open>FLOOR\<close>, and under every
  mode when \<open>p\<close> asks for exponential notation.
\<close>

theorem C1_sign_before_prefix:
  assumes "findUnquotedSemicolon p < 0"
      and "parsedPattern this = parsePattern p"
      and "0 < x" and "fl x = x"
  shows "format this (Num (Finite False x)) =
           (case number_body this (Finite False x) of
              Inl e \<Rightarrow> Inl e
            | Inr B \<Rightarrow> Inr (positivePrefix (parsePattern p) @ B @ positiveSuffix (parsePattern p)))
         \<and> format this (Num (Finite True x)) =
           (case number_body this (Finite True x) of
              Inl e \<Rightarrow> Inl e
            | Inr B \<Rightarrow> Inr (ustr ''-'' @ positivePrefix (parsePattern p) @ B
                            @ positiveSuffix (parsePattern p)))
         \<and> (roundingMode this \<notin> {CEILING, FLOOR} \<or> useExponentialNotation (parsePattern p)
              \<longrightarrow> number_body this (Finite True x) = number_body this (Finite False x))"
proof -
  obtain m where m: "1 \<le> m" "of_count (multiplier (parsePattern p)) = Finite False m"
    using parsePattern_of_count_multiplier by blast
  note neg = parsePattern_derived_negative [OF assms(1)]
  from scaled_value_cases [OF assms(3,4) m(1)]
  have sign: "format this (Num (Finite False x)) =
           (case number_body this (Finite False x) of
              Inl e \<Rightarrow> Inl e
            | Inr B \<Rightarrow> Inr (positivePrefix (parsePattern p) @ B @ positiveSuffix (parsePattern p)))
         \<and> format this (Num (Finite True x)) =
           (case number_body this (Finite True x) of
              Inl e \<Rightarrow> Inl e
            | Inr B \<Rightarrow> Inr (ustr ''-'' @ positivePrefix (parsePattern p) @ B
                            @ positiveSuffix (parsePattern p)))"
    by (auto simp: format_finite_body Let_def assms(2) m(2) neg ZERO_def sval_def
        split: sum.splits)
  have body: "roundingMode this \<notin> {CEILING, FLOOR} \<or> useExponentialNotation (parsePattern p)
              \<longrightarrow> number_body this (Finite True x) = number_body this (Finite False x)"
    using number_body_neg [OF assms(2) _ assms(3,4)] by blast
  from sign body show ?thesis by blast
qed

text \<open>
  Claim C1, as stated, at the pattern \<open>0\<close> under \<open>CEILING\<close> and \<open>v = 1.5\<close>: the pattern has
  no \<open>;\<close> and empty prefix and suffix, the number body of \<open>1.5\<close> is \<open>2\<close>, and
  \<open>format(-1.5)\<close> is \<open>-1\<close>, not \<open>-2\<close>.
\<close>

theorem C1_sign_before_prefix_counterexample:
  "findUnquotedSemicolon (ustr ''0'') = - 1
   \<and> positivePrefix (parsedPattern (setRoundingMode (new_DecimalFormat (Some (ustr ''0''))) CEILING)) = []
   \<and> positiveSuffix (parsedPattern (setRoundingMode (new_DecimalFormat (Some (ustr ''0''))) CEILING)) = []
   \<and> number_body (setRoundingMode (new_DecimalFormat (Some (ustr ''0''))) CEILING)
         (Finite False (3 / 2)) = Inr (ustr ''2'')
   \<and> format (setRoundingMode (new_DecimalFormat (Some (ustr ''0''))) CEILING)
         (Num (Finite True (3 / 2))) = Inr (ustr ''-1'')"
  by (simp add: all_eval)

theorem C1_sign_before_prefix_witness:
  "findUnquotedSemicolon (ustr ''$#,##0.00'') < 0
   \<and> roundingMode (new_DecimalFormat (Some (ustr ''$#,##0.00''))) = HALF_EVEN
   \<and> fl (2469 / 2) = 2469 / 2
   \<and> format (new_DecimalFormat (Some (ustr ''$#,##0.00''))) (Num (Finite False (2469 / 2)))
       = Inr (ustr ''$1,234.50'')
   \<and> format (new_DecimalFormat (Some (ustr ''$#,##0.00''))) (Num (Finite True (2469 / 2)))
       = Inr (ustr ''-$1,234.50'')
   \<and> number_body (new_DecimalFormat (Some (ustr ''$#,##0.00''))) (Finite True (2469 / 2))
       = number_body (new_DecimalFormat (Some (ustr ''$#,##0.00''))) (Finite False (2469 / 2))"
proof -
  let ?p = "ustr ''$#,##0.00''"
  let ?df = "new_DecimalFormat (Some ?p)"
  have h1: "findUnquotedSemicolon ?p < 0" by (simp add: all_eval)
  have h2: "parsedPattern ?df = parsePattern ?p"
    by (simp add: new_DecimalFormat_def Let_def ustr_def)
  have h3: "roundingMode ?df = HALF_EVEN" by (simp add: new_DecimalFormat_def Let_def)
  then have h3': "roundingMode ?df \<notin> {CEILING, FLOOR} \<or> useExponentialNotation (parsePattern ?p)"
    by simp
  have h4: "(0::real) < 2469 / 2" by simp
  have h5: "fl (2469 / 2) = 2469 / 2" by (simp add: num_eval)
  have pre: "positivePrefix (parsePattern ?p) = ustr ''$''"
    "positiveSuffix (parsePattern ?p) = []" by (simp_all add: all_eval)
  have body: "number_body ?df (Finite False (2469 / 2)) = Inr (ustr ''1,234.50'')"
    by (simp add: all_eval)
  have cat: "ustr ''$'' @ ustr ''1,234.50'' @ [] = ustr ''$1,234.50''"
    "ustr ''-'' @ ustr ''$1,234.50'' = ustr ''-$1,234.50''"
    by (simp_all add: ustr_def)
  note c = C1_sign_before_prefix [OF h1 h2 h4 h5]
  from c h3' have same: "number_body ?df (Finite True (2469 / 2))
                         = number_body ?df (Finite False (2469 / 2))" by blast
  note c' = c [unfolded same body pre sum.case cat]
  from c' have f1: "format ?df (Num (Finite False (2469 / 2))) = Inr (ustr ''$1,234.50'')"
    and f2: "format ?df (Num (Finite True (2469 / 2))) = Inr (ustr ''-$1,234.50'')"
    by blast+
  from h1 h3 h5 f1 f2 same show ?thesis by (intro conjI)
qed

section \<open>An integer part of optional digits only\<close>

lemma applyGrouping_empty: "applyGrouping [] g = []"
  by (simp add: applyGrouping_def)

lemma format_optional_digits_half:
  "format (new_DecimalFormat (Some (ustr ''###.##''))) (Num (Finite False (1 / 2)))
     = Inr (ustr ''.5'')"
  by (simp add: all_eval)

text \<open>
  Claim C9. In standard rendering, when \<open>minIntegerDigits = 0\<close> and the integer digit
  string of the rounded value is exactly \<open>0\<close>, the integer part is emitted as the empty
  string: the body is the decimal point and the fraction digits, or nothing at all.
  In particular the pattern \<open>###.##\<close> formats \<open>0.5\<close> to \<open>.5\<close>.
\<close>

theorem C9_optional_integer_zero_suppressed:
  "(minIntegerDigits (parsedPattern this) = 0
    \<and> round_value this val (maxFractionDigits (parsedPattern this)) = Inr rounded
    \<and> Number_toString
          (Math_floor
            (js_div
              (Math_round
                (js_mul (Math_abs rounded)
                  (Math_pow10 (of_count (maxFractionDigits (parsedPattern this))))))
              (Math_pow10 (of_count (maxFractionDigits (parsedPattern this))))))
        = ustr ''0''
    \<longrightarrow>
      formatStandard this val =
        Inr (let fractionPart =
                   trimTrailingZeros
                     (padStart
                       (Number_toString
                         (js_rem
                           (Math_round
                             (js_mul (Math_abs rounded)
                               (Math_pow10 (of_count (maxFractionDigits (parsedPattern this))))))
                           (Math_pow10 (of_count (maxFractionDigits (parsedPattern this))))))
                       (maxFractionDigits (parsedPattern this)) (c16 CHR ''0''))
                     (minFractionDigits (parsedPattern this))
             in if 0 < length fractionPart \<or> decimalSeparatorAlwaysShown (parsedPattern this)
                then ustr ''.'' @ fractionPart else []))
   \<and> format (new_DecimalFormat (Some (ustr ''###.##''))) (Num (Finite False (1 / 2)))
       = Inr (ustr ''.5'')"
  using format_optional_digits_half
  by (simp add: formatStandard_def Let_def applyGrouping_empty)

theorem C9_optional_integer_zero_suppressed_witness:
  "minIntegerDigits (parsedPattern (new_DecimalFormat (Some (ustr ''###.##'')))) = 0
   \<and> round_value (new_DecimalFormat (Some (ustr ''###.##''))) (Finite False (1 / 2)) 2
       = Inr (Finite False (1 / 2))
   \<and> formatStandard (new_DecimalFormat (Some (ustr ''###.##''))) (Finite False (1 / 2))
       = Inr (ustr ''.5'')"
proof -
  let ?df = "new_DecimalFormat (Some (ustr ''###.##''))"
  let ?mf = "maxFractionDigits (parsedPattern ?df)"
  let ?v = "Finite False (1 / 2)"
  have mf: "?mf = 2" by (simp add: all_eval)
  have mi: "minIntegerDigits (parsedPattern ?df) = 0" by (simp add: all_eval)
  have rv: "round_value ?df ?v 2 = Inr ?v" by (simp add: all_eval)
  have ip: "Number_toString
              (Math_floor
                (js_div (Math_round (js_mul (Math_abs ?v) (Math_pow10 (of_count ?mf))))
                  (Math_pow10 (of_count ?mf)))) = ustr ''0''"
    by (simp add: all_eval)
  have fp: "trimTrailingZeros
              (padStart
                (Number_toString
                  (js_rem (Math_round (js_mul (Math_abs ?v) (Math_pow10 (of_count ?mf))))
                    (Math_pow10 (of_count ?mf))))
                ?mf (c16 CHR ''0''))
              (minFractionDigits (parsedPattern ?df)) = ustr ''5''"
    by (simp add: all_eval)
  have rv': "round_value ?df ?v ?mf = Inr ?v" by (simp only: mf rv)
  have "formatStandard ?df ?v = Inr (ustr ''.'' @ ustr ''5'')"
    using C9_optional_integer_zero_suppressed [of ?df ?v ?v] mi rv' ip
    by (simp only: fp Let_def) (simp add: ustr_def)
  then have "formatStandard ?df ?v = Inr (ustr ''.5'')" by (simp add: ustr_def)
  with mi rv show ?thesis by (intro conjI)
qed

section \<open>Doubles that are exact, and the error of rounding\<close>

lemma pow2_less_imp: "pow2 a < pow2 b \<Longrightarrow> a < b"
  using pow2_mono [of b a] by (cases "a < b") auto

lemma roundTiesToEven_of_int: "roundTiesToEven (real_of_int N) = N"
  by (simp add: roundTiesToEven_def)

lemma pow2_nonneg_int: "0 \<le> j \<Longrightarrow> pow2 j = real_of_int (2 ^ nat j)"
  by (simp add: pow2_def)

lemma pow2_diff: "pow2 (a - b) = pow2 a / pow2 b"
  by (simp add: pow2_powi power_int_diff)

lemma fl_representable:
  assumes "0 < k" "k < 2 ^ 53" "- 1074 \<le> j"
  shows "fl (real k * pow2 j) = real k * pow2 j"
proof -
  define x where "x = real k * pow2 j"
  have x: "0 < x" using assms(1) pow2_pos [of j] by (simp add: x_def)
  define E where "E = max (binade x) (- 1022)"
  have "real k < 2 ^ 53" using assms(2) by (metis of_nat_less_iff of_nat_numeral of_nat_power)
  then have "x < pow2 53 * pow2 j"
    using pow2_pos [of j] by (simp add: x_def pow2_def)
  then have "x < pow2 (53 + j)" by (simp add: pow2_add)
  with binade_bounds [OF x] have "pow2 (binade x) < pow2 (53 + j)" by linarith
  then have "binade x < 53 + j" by (rule pow2_less_imp)
  then have E: "0 \<le> j - (E - 52)" using assms(3) by (simp add: E_def max_def)
  have "x / pow2 (E - 52) = real k * pow2 (j - (E - 52))"
    by (simp add: x_def pow2_diff)
  also have "\<dots> = real_of_int (int k * 2 ^ nat (j - (E - 52)))"
    by (simp add: pow2_nonneg_int [OF E])
  finally have "roundTiesToEven (x / pow2 (E - 52)) = int k * 2 ^ nat (j - (E - 52))"
    by (simp only: roundTiesToEven_of_int)
  then have "real_of_int (roundTiesToEven (x / pow2 (E - 52))) * pow2 (E - 52)
             = real k * pow2 (j - (E - 52)) * pow2 (E - 52)"
    by (simp add: pow2_nonneg_int [OF E])
  also have "\<dots> = x"
    by (simp add: x_def pow2_diff pow2_pos less_imp_neq [OF pow2_pos, symmetric])
  finally show ?thesis using x by (simp add: fl_def Let_def E_def x_def [symmetric])
qed

lemma fl_nat:
  assumes "n < 2 ^ 53"
  shows "fl (real n) = real n"
proof (cases "n = 0")
  case True
  then show ?thesis by (simp add: fl_zero)
next
  case False
  with fl_representable [of n 0] assms show ?thesis by (simp add: pow2_def)
qed

lemma fl_nat_half:
  assumes "n < 2 ^ 52"
  shows "fl (real n + 1 / 2) = real n + 1 / 2"
proof -
  have "2 * n + 1 < 2 ^ 53" using assms by simp
  from fl_representable [OF _ this, of "- 1"] show ?thesis
    by (simp add: pow2_def field_simps)
qed

lemma fl_pow10:
  assumes "sc \<le> 22"
  shows "fl (10 ^ sc) = 10 ^ sc"
proof -
  have "(5::nat) ^ sc \<le> 5 ^ 22" using assms by (intro power_increasing) simp_all
  also have "\<dots> < 2 ^ 53" by simp
  finally have "(5::nat) ^ sc < 2 ^ 53" .
  from fl_representable [OF _ this, of "int sc"]
  have "fl (real (5 ^ sc) * 2 ^ sc) = real (5 ^ sc) * 2 ^ sc" by (simp add: pow2_nat)
  moreover have "real (5 ^ sc) * 2 ^ sc = 10 ^ sc"
    by (simp add: power_mult_distrib [symmetric])
  ultimately show ?thesis by simp
qed

lemma roundTiesToEven_error: "\<bar>real_of_int (roundTiesToEven t) - t\<bar> \<le> 1 / 2"
  by (simp add: roundTiesToEven_def Let_def)

lemma pow2_53: "pow2 53 = 2 ^ 53"
  by (simp add: pow2_def)

lemma pow2_52: "pow2 52 = 2 ^ 52"
  by (simp add: pow2_def)

lemma pow2_shift53: "pow2 (E + 1) = 2 ^ 53 * pow2 (E - 52)"
proof -
  have "E + 1 = 53 + (E - 52)" by simp
  then have "pow2 (E + 1) = pow2 (53 + (E - 52))" by (rule arg_cong)
  then show ?thesis by (simp only: pow2_add pow2_53)
qed

lemma roundTiesToEven_le: "roundTiesToEven t \<le> \<lfloor>t\<rfloor> + 1"
  by (simp add: roundTiesToEven_def Let_def)

lemma roundTiesToEven_nonneg: "0 \<le> t \<Longrightarrow> 0 \<le> roundTiesToEven t"
  using roundTiesToEven_ge_floor [of t] by (smt (verit) zero_le_floor)

lemma binade_normal:
  assumes "pow2 (- 1022) \<le> z"
  shows "- 1022 \<le> binade z"
proof -
  have z: "0 < z" using assms pow2_pos [of "- 1022"] by linarith
  with binade_bounds [OF z] assms have "pow2 (- 1022) < pow2 (binade z + 1)" by linarith
  then have "- 1022 < binade z + 1" by (rule pow2_less_imp)
  then show ?thesis by simp
qed

lemma fl_rel_error:
  assumes "pow2 (- 1022) \<le> z"
  shows "\<bar>fl z - z\<bar> \<le> z / 2 ^ 53"
proof -
  have z: "0 < z" using assms pow2_pos [of "- 1022"] by linarith
  define q where "q = pow2 (binade z - 52)"
  have q: "0 < q" by (simp add: q_def pow2_pos)
  have E: "max (binade z) (- 1022) = binade z" using binade_normal [OF assms] by simp
  have flz: "fl z = real_of_int (roundTiesToEven (z / q)) * q"
    using z by (simp add: fl_def Let_def E q_def)
  have "fl z - z = (real_of_int (roundTiesToEven (z / q)) - z / q) * q"
    using q by (simp add: flz left_diff_distrib)
  then have "\<bar>fl z - z\<bar> = \<bar>real_of_int (roundTiesToEven (z / q)) - z / q\<bar> * q"
    using q by (simp add: abs_mult)
  also have "\<dots> \<le> 1 / 2 * q"
    using roundTiesToEven_error [of "z / q"] q by (intro mult_right_mono) simp_all
  also have "q = pow2 (binade z) / 2 ^ 52" by (simp only: q_def pow2_diff pow2_52)
  also have "1 / 2 * (pow2 (binade z) / 2 ^ 52) \<le> 1 / 2 * (z / 2 ^ 52)"
    using binade_bounds [OF z] by (simp add: divide_right_mono)
  finally show ?thesis by simp
qed

lemma fl_scaled_lt:
  assumes "0 < z"
  shows "z / pow2 (max (binade z) (- 1022) - 52) < 2 ^ 53"
proof -
  define E where "E = max (binade z) (- 1022)"
  have "z < pow2 (binade z + 1)" using binade_bounds [OF assms] by simp
  also have "\<dots> \<le> pow2 (E + 1)" by (rule pow2_mono) (simp add: E_def)
  also have "\<dots> = 2 ^ 53 * pow2 (E - 52)" by (rule pow2_shift53)
  finally show ?thesis using pow2_pos [of "E - 52"] by (simp add: E_def field_simps)
qed

lemma fl_idem:
  assumes "0 \<le> z"
  shows "fl (fl z) = fl z"
proof (cases "z = 0")
  case True
  then show ?thesis by (simp add: fl_zero)
next
  case False
  with assms have z: "0 < z" by simp
  define E where "E = max (binade z) (- 1022)"
  define N where "N = roundTiesToEven (z / pow2 (E - 52))"
  have flz: "fl z = real_of_int N * pow2 (E - 52)"
    using z by (simp add: fl_def Let_def E_def N_def)
  have t: "0 \<le> z / pow2 (E - 52)" using z pow2_pos [of "E - 52"] by simp
  have N0: "0 \<le> N" unfolding N_def by (rule roundTiesToEven_nonneg [OF t])
  have "z / pow2 (E - 52) < 2 ^ 53" using fl_scaled_lt [OF z] by (simp add: E_def)
  then have "\<lfloor>z / pow2 (E - 52)\<rfloor> < 2 ^ 53" by (subst floor_less_iff) simp
  with roundTiesToEven_le [of "z / pow2 (E - 52)"] have N1: "N \<le> 2 ^ 53"
    unfolding N_def by linarith
  have j: "- 1074 \<le> E - 52" by (simp add: E_def)
  consider "N = 0" | "0 < N" "N < 2 ^ 53" | "N = 2 ^ 53" using N0 N1 by linarith
  then show ?thesis
  proof cases
    case 1
    then show ?thesis by (simp add: flz fl_zero)
  next
    case 2
    then have "0 < nat N" "nat N < 2 ^ 53" by simp_all
    from fl_representable [OF this j] 2 show ?thesis by (simp add: flz)
  next
    case 3
    have "fl z = real (1::nat) * pow2 (E + 1)"
      by (simp add: flz 3 pow2_shift53)
    moreover have "fl (real (1::nat) * pow2 (E + 1)) = real (1::nat) * pow2 (E + 1)"
      by (rule fl_representable) (use j in simp_all)
    ultimately show ?thesis by simp
  qed
qed

section \<open>Decimal strings: from \<open>toFixed\<close> back through \<open>parseFloat\<close>\<close>

lemma unat_digit_char: "d < 10 \<Longrightarrow> unat (digit_char d) = 48 + d"
  unfolding digit_char_def unat_of_nat by simp

lemma is_digit_digit_char: "d < 10 \<Longrightarrow> is_digit (digit_char d)"
  by (simp add: is_digit_def word_le_nat_alt unat_digit_char)

lemma digit_val_digit_char: "d < 10 \<Longrightarrow> digit_val (digit_char d) = d"
  by (simp add: digit_val_def unat_digit_char)

lemma is_digit_unat: "is_digit c = (48 \<le> unat c \<and> unat c \<le> 57)"
  by (simp add: is_digit_def word_le_nat_alt)

lemma digit_not_special:
  assumes "is_digit c"
  shows "\<not> is_whitespace c" "c \<noteq> c16 CHR ''-''" "c \<noteq> c16 CHR ''+''" "c \<noteq> c16 CHR ''I''"
    "c \<noteq> c16 CHR ''.''"
  using assms by (auto simp: is_digit_unat is_whitespace_def c16_def word_le_nat_alt)

lemma dot_not_digit: "\<not> is_digit (c16 CHR ''.'')"
  by (simp add: is_digit_unat c16_def)

lemma zero_char: "c16 CHR ''0'' = digit_char 0"
  by (simp add: c16_def digit_char_def)

lemma digits_val_snoc: "digits_val (xs @ [c]) = 10 * digits_val xs + digit_val c"
  by (simp add: digits_val_def)

lemma digits_val_Nil: "digits_val [] = 0"
  by (simp add: digits_val_def)

lemma nat_digits_pos_props:
  "list_all is_digit (nat_digits_pos n) \<and> digits_val (nat_digits_pos n) = n
   \<and> (0 < n \<longrightarrow> nat_digits_pos n \<noteq> [])"
proof (induction n rule: nat_digits_pos.induct)
  case (1 n)
  show ?case
  proof (cases "n = 0")
    case True
    then show ?thesis by (subst (1 2 3) nat_digits_pos.simps) (simp add: digits_val_Nil)
  next
    case False
    have eq: "nat_digits_pos n = nat_digits_pos (n div 10) @ [digit_char (n mod 10)]"
      using False by (subst nat_digits_pos.simps) simp
    from "1.IH" [OF False] show ?thesis
      by (simp add: eq digits_val_snoc is_digit_digit_char digit_val_digit_char)
  qed
qed

lemma nat_digits_props:
  "list_all is_digit (nat_digits n) \<and> digits_val (nat_digits n) = n \<and> nat_digits n \<noteq> []"
  using nat_digits_pos_props [of n]
  by (cases "n = 0")
     (simp_all add: nat_digits_def is_digit_digit_char digits_val_def digit_val_digit_char)

lemma digits_val_zeros: "digits_val (replicate k (digit_char 0) @ ds) = digits_val ds"
proof -
  have "foldl (\<lambda>a c. 10 * a + digit_val c) 0 (replicate k (digit_char 0)) = 0"
    by (induction k) (simp_all add: digit_val_digit_char)
  then show ?thesis by (simp add: digits_val_def)
qed

lemma parseFloat_integer:
  assumes "ip \<noteq> []" "list_all is_digit ip"
  shows "parseFloat ip = round_double False (real (digits_val ip))"
proof -
  from assms obtain d ds where ip: "ip = d # ds" and d: "is_digit d" and ds: "list_all is_digit ds"
    by (cases ip) auto
  have tw: "takeWhile is_digit ds = ds" "dropWhile is_digit ds = []"
    using ds by (simp_all add: list_all_iff)
  show ?thesis
    using digit_not_special [OF d] d
    by (simp add: parseFloat_def ip Let_def ustr_def tw parse_exponent_def pow10_def)
qed

lemma parseFloat_decimal:
  assumes "ip \<noteq> []" "list_all is_digit ip" "list_all is_digit fp"
  shows "parseFloat (ip @ ustr ''.'' @ fp)
         = round_double False (real (digits_val (ip @ fp)) * pow10 (- int (length fp)))"
proof -
  from assms obtain d ds where ip: "ip = d # ds" and d: "is_digit d" and ds: "list_all is_digit ds"
    by (cases ip) auto
  have tw: "takeWhile is_digit (ds @ c16 CHR ''.'' # fp) = ds"
    "dropWhile is_digit (ds @ c16 CHR ''.'' # fp) = c16 CHR ''.'' # fp"
    using ds dot_not_digit by (simp_all add: list_all_iff)
  have tw2: "takeWhile is_digit fp = fp" "dropWhile is_digit fp = []"
    using assms(3) by (simp_all add: list_all_iff)
  show ?thesis
    using digit_not_special [OF d] d
    by (simp add: parseFloat_def ip Let_def ustr_def tw tw2 parse_exponent_def)
qed

lemma pow10_neg_nat: "pow10 (- int f) = 1 / 10 ^ f"
  by (auto simp: pow10_def)

lemma toFixed_parseFloat:
  assumes "f \<le> 100" "0 \<le> m" "m < 10 ^ 21"
  shows "\<exists>str. Number_toFixed (Finite False m) f = Inr str
               \<and> parseFloat str
                   = round_double False (real (nat \<lfloor>m * 10 ^ f + 1 / 2\<rfloor>) / 10 ^ f)"
proof -
  define n where "n = nat \<lfloor>m * 10 ^ f + 1 / 2\<rfloor>"
  define ds where "ds = nat_digits n"
  note dsp = nat_digits_props [of n, folded ds_def]
  show ?thesis
  proof (cases "f = 0")
    case True
    have "Number_toFixed (Finite False m) f = Inr ds"
      using assms True by (simp add: Number_toFixed_def Let_def n_def ds_def)
    moreover have "parseFloat ds = round_double False (real n / 10 ^ f)"
      using parseFloat_integer [of ds] dsp by (simp add: True)
    ultimately show ?thesis by (simp add: n_def)
  next
    case False
    define zs where "zs = (if length ds \<le> f
                           then replicate (f + 1 - length ds) (c16 CHR ''0'') @ ds else ds)"
    have zs: "f < length zs" "list_all is_digit zs" "digits_val zs = n"
      using dsp by (auto simp: zs_def zero_char digits_val_zeros is_digit_digit_char list_all_iff)
    define ip where "ip = take (length zs - f) zs"
    define fp where "fp = drop (length zs - f) zs"
    have parts: "ip \<noteq> []" "list_all is_digit ip" "list_all is_digit fp" "length fp = f"
      "ip @ fp = zs"
      using zs by (auto simp: ip_def fp_def list_all_iff dest: in_set_takeD in_set_dropD)
    have "Number_toFixed (Finite False m) f = Inr (ip @ ustr ''.'' @ fp)"
      using assms False
      by (simp add: Number_toFixed_def Let_def n_def [symmetric] ds_def [symmetric]
          zs_def ip_def fp_def)
    moreover have "parseFloat (ip @ ustr ''.'' @ fp) = round_double False (real n / 10 ^ f)"
      using parseFloat_decimal [OF parts(1,2,3)]
      by (simp add: parts(4,5) zs(3) pow10_neg_nat)
    ultimately show ?thesis by (simp add: n_def)
  qed
qed

section \<open>Ties under \<open>HALF_EVEN\<close>\<close>

lemma round_double_exact: "fl x = x \<Longrightarrow> x < 2 ^ 1024 \<Longrightarrow> round_double s x = Finite s x"
  by (simp add: round_double_def)

lemma round_double_nat: "n < 2 ^ 53 \<Longrightarrow> round_double s (real n) = Finite s (real n)"
proof -
  assume n: "n < 2 ^ 53"
  then have "real n < 2 ^ 53" by (metis of_nat_less_iff of_nat_numeral of_nat_power)
  then have "real n < 2 ^ 1024" by (rule less_trans) simp
  with fl_nat [OF n] show ?thesis by (rule round_double_exact)
qed

lemma of_count_small: "n < 2 ^ 53 \<Longrightarrow> of_count n = Finite False (real n)"
  by (simp add: of_count_def round_double_nat)

lemma factor_pow10:
  assumes "sc \<le> 22"
  shows "Math_pow10 (of_count sc) = Finite False (10 ^ sc)"
proof -
  have "sc < 2 ^ 53" using assms by simp
  then have oc: "of_count sc = Finite False (real sc)" by (rule of_count_small)
  have "real sc \<le> 22" using assms by simp
  then show ?thesis by (simp add: oc)
qed

lemma fl_half: "fl (1 / 2) = 1 / 2"
  using fl_nat_half [of 0] by simp

lemma floor_nat_half: "\<lfloor>real n + 1 / 2\<rfloor> = int n"
  by linarith

lemma rem_two_even: "(real n = 2 * real_of_int \<lfloor>real n / 2\<rfloor>) = even n"
proof (cases "even n")
  case True
  then obtain k where k: "n = 2 * k" ..
  have "\<lfloor>real n / 2\<rfloor> = int k" by (simp add: k)
  then show ?thesis using True by (simp add: k)
next
  case False
  then obtain k where k: "n = 2 * k + 1" by (rule oddE)
  have "real n / 2 = real k + 1 / 2" by (simp add: k)
  then have "\<lfloor>real n / 2\<rfloor> = int k" by (simp only: floor_nat_half)
  then show ?thesis using False by (simp add: k)
qed

lemma half_plus_epsilon:
  "js_add HALF EPSILON = Finite False (281474976766951 / 562949953421312)"
  by (simp add: num_eval)

lemma half_minus_epsilon:
  "js_sub HALF EPSILON = Finite False (281474976654361 / 562949953421312)"
  by (simp add: num_eval)

lemma round_double_nat_succ:
  "n < 2 ^ 52 \<Longrightarrow> round_double s (real n + 1) = Finite s (real n + 1)"
  using round_double_nat [of "n + 1" s] by (simp add: add.commute)

lemma round_double_half: "round_double s (1 / 2) = Finite s (1 / 2)"
  by (rule round_double_exact [OF fl_half]) simp

lemma roundInteger_half_even_tie:
  assumes "roundingMode this = HALF_EVEN" "n < 2 ^ 52"
  shows "roundInteger this (Finite s (real n + 1 / 2))
         = Inr (Finite s (if even n then real n else real n + 1))"
proof -
  have n: "n < 2 ^ 53" using assms(2) by simp
  show ?thesis
    by (cases s)
       (simp_all add: roundInteger_def assms(1) Let_def ZERO_def ONE_def TWO_def HALF_def
          js_sub_def js_gt_def sval_def floor_nat_half round_double_half rem_two_even
          round_double_nat [OF n] round_double_nat_succ [OF assms(2)])
qed

lemma decimal_quotient_bounds:
  assumes "sc \<le> 22" "e \<le> 2 ^ 51"
  shows "0 \<le> fl (real e / 10 ^ sc)"
    and "fl (real e / 10 ^ sc) < 10 ^ 21"
    and "fl (real e / 10 ^ sc) < 2 ^ 1024"
    and "nat \<lfloor>fl (real e / 10 ^ sc) * 10 ^ sc + 1 / 2\<rfloor> = e"
proof -
  define z where "z = real e / 10 ^ sc"
  define y where "y = fl z"
  have e: "real e \<le> 2 ^ 51" using assms(2)
    by (metis of_nat_le_iff of_nat_numeral of_nat_power)
  have "0 \<le> y \<and> y < 10 ^ 21 \<and> y < 2 ^ 1024 \<and> nat \<lfloor>y * 10 ^ sc + 1 / 2\<rfloor> = e"
  proof (cases "e = 0")
    case True
    then show ?thesis by (simp add: y_def z_def fl_zero)
  next
    case False
    have p: "(10::real) ^ sc \<le> 10 ^ 22" using assms(1) by (intro power_increasing) simp_all
    have "pow2 (- 1022) \<le> 1 / 10 ^ 22" by (simp add: pow2_def)
    also have "\<dots> \<le> 1 / 10 ^ sc" using p by (intro divide_left_mono) simp_all
    also have "\<dots> \<le> z" using False by (simp add: z_def divide_right_mono)
    finally have zn: "pow2 (- 1022) \<le> z" .
    have z0: "0 \<le> z" by (simp add: z_def)
    have "(1::real) \<le> 10 ^ sc" by simp
    then have "real e / 10 ^ sc \<le> real e / 1" by (intro divide_left_mono) simp_all
    then have zle: "z \<le> real e" by (simp add: z_def)
    from fl_rel_error [OF zn] have err: "\<bar>y - z\<bar> \<le> z / 2 ^ 53" by (simp add: y_def)
    have "z / 2 ^ 53 \<le> z" using z0 by (simp add: field_simps)
    with err z0 have y0: "0 \<le> y" and y2: "y \<le> 2 * z" by linarith+
    from y2 zle e have yb: "y \<le> 2 ^ 52" by simp
    have "\<bar>y * 10 ^ sc - real e\<bar> = \<bar>y - z\<bar> * 10 ^ sc"
    proof -
      have "y * 10 ^ sc - real e = (y - z) * 10 ^ sc" by (simp add: z_def left_diff_distrib)
      then show ?thesis by (simp add: abs_mult)
    qed
    also have "\<dots> \<le> z / 2 ^ 53 * 10 ^ sc" using err by (intro mult_right_mono) simp_all
    also have "\<dots> = real e / 2 ^ 53" by (simp add: z_def)
    also have "\<dots> \<le> 2 ^ 51 / 2 ^ 53" using e by (intro divide_right_mono) simp_all
    finally have "\<bar>y * 10 ^ sc - real e\<bar> \<le> 1 / 4" by simp
    then have "\<lfloor>y * 10 ^ sc + 1 / 2\<rfloor> = int e" by linarith
    moreover have "y < 10 ^ 21" "y < 2 ^ 1024" using yb by simp_all
    ultimately show ?thesis using y0 by simp
  qed
  then show "0 \<le> fl (real e / 10 ^ sc)" "fl (real e / 10 ^ sc) < 10 ^ 21"
    "fl (real e / 10 ^ sc) < 2 ^ 1024"
    "nat \<lfloor>fl (real e / 10 ^ sc) * 10 ^ sc + 1 / 2\<rfloor> = e"
    by (simp_all add: y_def z_def)
qed

lemma decimal_quotient_round_trip:
  assumes "sc \<le> 22" "e \<le> 2 ^ 51"
  shows "js_div (Finite False (real e)) (Finite False (10 ^ sc))
         = Finite False (fl (real e / 10 ^ sc))"
    and "\<exists>str. Number_toFixed (Finite False (fl (real e / 10 ^ sc))) sc = Inr str
               \<and> parseFloat str = Finite False (fl (real e / 10 ^ sc))"
proof -
  note b = decimal_quotient_bounds [OF assms]
  have rd: "round_double False (real e / 10 ^ sc) = Finite False (fl (real e / 10 ^ sc))"
    using b(3) by (simp add: round_double_def Let_def)
  show "js_div (Finite False (real e)) (Finite False (10 ^ sc))
        = Finite False (fl (real e / 10 ^ sc))"
    by (simp add: rd)
  have "sc \<le> 100" using assms(1) by simp
  from toFixed_parseFloat [OF this b(1,2)]
  show "\<exists>str. Number_toFixed (Finite False (fl (real e / 10 ^ sc))) sc = Inr str
              \<and> parseFloat str = Finite False (fl (real e / 10 ^ sc))"
    by (simp add: b(4) rd)
qed

lemma js_sub_Finite:
  "js_sub (Finite s a) (Finite t b) = js_add (Finite s a) (Finite (\<not> t) b)"
  by (simp add: js_sub_def)

lemma round_double_decimal_quotient:
  assumes "sc \<le> 22" "e \<le> 2 ^ 51"
  shows "round_double s (real e / 10 ^ sc) = Finite s (fl (real e / 10 ^ sc))"
    and "round_double s (fl (real e / 10 ^ sc)) = Finite s (fl (real e / 10 ^ sc))"
proof -
  note b = decimal_quotient_bounds [OF assms]
  show "round_double s (real e / 10 ^ sc) = Finite s (fl (real e / 10 ^ sc))"
    using b(3) by (simp add: round_double_def Let_def)
  have "fl (fl (real e / 10 ^ sc)) = fl (real e / 10 ^ sc)" by (rule fl_idem) simp
  then show "round_double s (fl (real e / 10 ^ sc)) = Finite s (fl (real e / 10 ^ sc))"
    using b(3) by (rule round_double_exact)
qed

lemma round_value_half_even_tie:
  assumes "roundingMode this = HALF_EVEN" "sc \<noteq> 0" "sc \<le> 22" "n < 2 ^ 51"
      and "0 \<le> x" "x * 10 ^ sc = real n + 1 / 2"
  shows "round_value this (Finite s x) sc
         = Inr (Finite s (fl ((if even n then real n else real n + 1) / 10 ^ sc)))"
proof -
  have x: "0 < x"
  proof (rule ccontr)
    assume "\<not> 0 < x"
    with assms(5) have "x = 0" by simp
    with assms(6) show False by simp
  qed
  have n52: "n < 2 ^ 52" using assms(4) by simp
  have n53: "n < 2 ^ 53" using assms(4) by simp
  have factor: "Math_pow10 (of_count sc) = Finite False (10 ^ sc)"
    by (rule factor_pow10 [OF assms(3)])
  have "real n + 1 / 2 < 2 ^ 1024"
  proof -
    have "real n < 2 ^ 51" using assms(4) by (metis of_nat_less_iff of_nat_numeral of_nat_power)
    then show ?thesis by simp
  qed
  then have scaled: "round_double False (x * 10 ^ sc) = Finite False (real n + 1 / 2)"
    using fl_nat_half [OF n52] by (simp add: assms(6) round_double_exact)
  have e1: "n \<le> 2 ^ 51" "n + 1 \<le> 2 ^ 51" using assms(4) by simp_all
  note q1 = round_double_decimal_quotient [OF assms(3) e1(1)]
  have eq: "real (n + 1) = real n + 1" by simp
  note q2 = round_double_decimal_quotient [OF assms(3) e1(2), unfolded eq]
  from decimal_quotient_round_trip(2) [OF assms(3) e1(1)] obtain str1 where
    str1: "Number_toFixed (Finite False (fl (real n / 10 ^ sc))) sc = Inr str1"
      "parseFloat str1 = Finite False (fl (real n / 10 ^ sc))" by blast
  from decimal_quotient_round_trip(2) [OF assms(3) e1(2), unfolded eq] obtain str2 where
    str2: "Number_toFixed (Finite False (fl ((real n + 1) / 10 ^ sc))) sc = Inr str2"
      "parseFloat str2 = Finite False (fl ((real n + 1) / 10 ^ sc))" by blast
  show ?thesis
    using x
    by (cases s; cases "even n")
       (simp_all add: round_value_def assms(1,2) Let_def factor scaled
          js_ge_def js_gt_def ZERO_def ONE_def TWO_def sval_def js_sub_Finite
          floor_nat_half round_double_half half_plus_epsilon half_minus_epsilon
          rem_two_even round_double_nat [OF n53] round_double_nat_succ [OF n52]
          q1 q2 str1 str2)
qed

lemma half_even_one_twenty_five:
  "format (new_DecimalFormat (Some (ustr ''#,##0.0''))) (Num (double_of (125 / 100)))
     = Inr (ustr ''1.2'')"
  by (simp add: all_eval)

lemma half_even_one_thirty_five:
  "format (new_DecimalFormat (Some (ustr ''#,##0.0''))) (Num (double_of (135 / 100)))
     = Inr (ustr ''1.4'')"
  by (simp add: all_eval)

lemma half_even_large_tie_rounded:
  "round_value (new_DecimalFormat (Some (ustr ''#,##0.00'')))
     (Finite False (39408618106130 + 3 / 8)) 2 = Inr (double_of (3940861810613038 / 100))"
  by (simp add: all_eval)

lemma half_even_large_tie_rescaled:
  "js_mul (double_of (3940861810613038 / 100)) (Finite False 100)
     = Finite False (3940861810613038 + 1 / 2)"
  by (simp add: num_eval)

lemma half_even_large_tie_format:
  "format (new_DecimalFormat (Some (ustr ''#,##0.00'')))
     (Num (Finite False (39408618106130 + 3 / 8))) = Inr (ustr ''39,408,618,106,130.39'')"
  by (simp add: all_eval)

text \<open>
  Claim C6, at the double \<open>39408618106130.375\<close> with the pattern \<open>#,##0.00\<close> under
  \<open>HALF_EVEN\<close>. The value times \<open>10\<^sup>2\<close> is \<open>3940861810613037.5\<close>, an exact tie whose
  even neighbour is \<open>3940861810613038\<close>, and \<open>round\<close> returns the double nearest to
  \<open>39408618106130.38\<close>. \<open>formatStandard\<close> then multiplies that double by \<open>100\<close> again
  and applies \<open>Math.round\<close>: the product is the double \<open>3940861810613038.5\<close>,
  \<open>Math.round\<close> takes it to \<open>3940861810613039\<close>, and the string ends in \<open>.39\<close>,
  which is neither neighbour. The two examples of the claim hold: with the
  pattern \<open>#,##0.0\<close>, \<open>format(1.25)\<close> is \<open>1.2\<close> and \<open>format(1.35)\<close> is \<open>1.4\<close>. For ties
  \<open>n + 1/2\<close> with \<open>n\<close> below \<open>2\<^sup>5\<^sup>1\<close> the lemmas \<open>roundInteger_half_even_tie\<close> and
  \<open>round_value_half_even_tie\<close> above give the double that \<open>round\<close> returns.
\<close>

theorem C6_half_even_large_tie:
  "roundingMode (new_DecimalFormat (Some (ustr ''#,##0.00''))) = HALF_EVEN
   \<and> maxFractionDigits (parsedPattern (new_DecimalFormat (Some (ustr ''#,##0.00'')))) = 2
   \<and> fl (39408618106130 + 3 / 8) = 39408618106130 + 3 / 8
   \<and> (39408618106130 + 3 / 8 :: real) * 10 ^ 2 = real 3940861810613037 + 1 / 2
   \<and> round_value (new_DecimalFormat (Some (ustr ''#,##0.00'')))
        (Finite False (39408618106130 + 3 / 8)) 2 = Inr (double_of (3940861810613038 / 100))
   \<and> js_mul (double_of (3940861810613038 / 100)) (Finite False 100)
       = Finite False (3940861810613038 + 1 / 2)
   \<and> format (new_DecimalFormat (Some (ustr ''#,##0.00'')))
        (Num (Finite False (39408618106130 + 3 / 8))) = Inr (ustr ''39,408,618,106,130.39'')
   \<and> format (new_DecimalFormat (Some (ustr ''#,##0.0''))) (Num (double_of (125 / 100)))
       = Inr (ustr ''1.2'')
   \<and> format (new_DecimalFormat (Some (ustr ''#,##0.0''))) (Num (double_of (135 / 100)))
       = Inr (ustr ''1.4'')"
proof -
  have m: "roundingMode (new_DecimalFormat (Some (ustr ''#,##0.00''))) = HALF_EVEN"
    by (simp add: new_DecimalFormat_def Let_def)
  have mf: "maxFractionDigits (parsedPattern (new_DecimalFormat (Some (ustr ''#,##0.00'')))) = 2"
    by (simp add: all_eval)
  have d: "fl (39408618106130 + 3 / 8) = 39408618106130 + 3 / 8" by (simp add: num_eval)
  have t: "(39408618106130 + 3 / 8 :: real) * 10 ^ 2 = real 3940861810613037 + 1 / 2" by simp
  from m mf d t half_even_large_tie_rounded half_even_large_tie_rescaled
    half_even_large_tie_format
    half_even_one_twenty_five half_even_one_thirty_five
  show ?thesis by (intro conjI)
qed

section \<open>The mode \<open>UNNECESSARY\<close>\<close>






lemma exact_at_scale_zero: "exact_at_scale (Finite t y) 0 = (y = real_of_int \<lfloor>y\<rfloor>)"
  by (cases t) (simp_all add: exact_at_scale_def sval_def integer_floor_ceiling)














end
